theory Spec2Isabelle
  imports Main
begin

section \<open>The relational store\<close>

text \<open>
  The program keeps no data of its own: every operation of class \<open>Database\<close> sends one
  SQL statement to a PostgreSQL store with the tables
  \<open>lib(id, title, author, release_date, borrowed_by, borrow_date, return_date)\<close> and
  \<open>roles(username, password, role)\<close>. A table is modelled as the list of its rows, in
  the order in which the store returns them. A nullable column is an \<open>option\<close>, with
  \<open>None\<close> for SQL NULL.
\<close>

datatype date = Date (year: int) (month: nat) (day: nat)

text \<open>A reading of \<open>datetime.now()\<close>: a calendar date and the seconds since midnight.\<close>

datatype datetime = DateTime (dt_date: date) (dt_time: nat)

text \<open>
  A row of \<open>lib\<close>. Column \<open>id\<close> is field \<open>book_id\<close>. \<open>borrow_date\<close> receives a Python
  \<open>date\<close>, \<open>return_date\<close> the string the caller passed.
\<close>

record book =
  book_id :: int
  title :: string
  author :: string
  release_date :: date
  borrowed_by :: "string option"
  borrow_date :: "date option"
  return_date :: "string option"

text \<open>A row of \<open>roles\<close>; the password is stored as it is compared, in plain text.\<close>

record roles_row =
  r_username :: string
  r_password :: string
  r_role :: string

text \<open>
  The statements the store receives, with their parameters. \<open>executed\<close> below is their
  history, oldest first: a gateway operation has reached the store exactly when its
  statement is in the history.
\<close>

datatype statement =
    SelectBooks
  | UpdateBorrow "string option" date string int
  | UpdateReturn int
  | SelectRole string string

record database =
  lib :: "book list"
  roles :: "roles_row list"
  executed :: "statement list"

section \<open>Messages and exceptions\<close>

text \<open>
  The program's texts are Russian string literals. Each one is a constructor here, with
  the values its f-string interpolates as arguments; the comment gives the source line.
\<close>

datatype status =
    Issued string "string option"  \<comment> \<open>line 111: issued to borrowed_by until return_date\<close>
  | Available                      \<comment> \<open>line 111: available\<close>

datatype message =
    TakenOrMissing                 \<comment> \<open>line 41: the book is already taken or does not exist\<close>
  | NulInString                    \<comment> \<open>the driver: a string literal cannot contain NUL characters\<close>
  | CannotEncode                   \<comment> \<open>the codec: it cannot encode the characters of the line\<close>
  | InvalidLiteral string          \<comment> \<open>what \<open>int\<close> says of a line that is no integer\<close>
  | EnterLogin                     \<comment> \<open>line 97, prompt\<close>
  | EnterPassword                  \<comment> \<open>line 98, prompt\<close>
  | Welcome "string option" "string option" \<comment> \<open>line 102: welcome, username and role\<close>
  | BadLogin                       \<comment> \<open>line 104: wrong login or password\<close>
  | BookListHeader                 \<comment> \<open>line 109\<close>
  | BookLine int string string status  \<comment> \<open>line 112: id, title, author, status\<close>
  | NoBorrowAccess                 \<comment> \<open>line 116: no access to borrowing\<close>
  | EnterBorrowId                  \<comment> \<open>line 120, prompt\<close>
  | EnterReturnDate                \<comment> \<open>line 121, prompt\<close>
  | BorrowedOk                     \<comment> \<open>line 125: the book was issued\<close>
  | BookIssued int "string option" \<comment> \<open>line 126: book ID issued to user, for the observers\<close>
  | NoReturnAccess                 \<comment> \<open>line 132: no access to returning\<close>
  | EnterReturnId                  \<comment> \<open>line 136, prompt\<close>
  | ReturnedOk                     \<comment> \<open>line 140: the book was returned\<close>
  | BookReturned int               \<comment> \<open>line 141: book ID returned to the library, for the observers\<close>
  | MenuShow                       \<comment> \<open>line 149\<close>
  | MenuBorrow                     \<comment> \<open>line 151\<close>
  | MenuReturn                     \<comment> \<open>line 153\<close>
  | MenuExit                       \<comment> \<open>line 154\<close>
  | Choose                         \<comment> \<open>line 156, prompt\<close>
  | InvalidChoice                  \<comment> \<open>line 166: invalid choice, try again\<close>

text \<open>
  The exceptions the program raises itself or lets its libraries raise:
  \<open>ValueError\<close> (line 41; \<open>int\<close> on a line that is no integer; \<open>cursor.execute\<close> on a
  string parameter that contains the character NUL; and, as its subclass
  \<open>UnicodeEncodeError\<close>, the write of line 76 when the encoding of the log file cannot
  encode the line), \<open>NotImplementedError\<close> (line 69), \<open>SystemExit\<close> (\<open>exit()\<close>,
  line 105), \<open>EOFError\<close> (\<open>input\<close> when the input has ended) and \<open>OSError\<close> (\<open>open\<close>,
  line 75, when the log file cannot be opened for appending). \<open>except ValueError\<close>
  catches the subclass too, so \<open>UnicodeEncodeError\<close> is \<open>ValueError CannotEncode\<close> here.
\<close>

datatype exn =
    ValueError message
  | NotImplementedError
  | SystemExit
  | EOFError
  | OSError

text \<open>
  The driver adapts every \<open>str\<close> parameter to an SQL literal before it sends the
  statement, and raises \<open>ValueError\<close> when the string contains the character NUL (0x00):
  nothing is sent then. \<open>None\<close> is adapted to NULL.
\<close>

definition has_nul :: "string \<Rightarrow> bool" where
  "has_nul s \<longleftrightarrow> CHR 0x00 \<in> set s"

definition opt_has_nul :: "string option \<Rightarrow> bool" where
  "opt_has_nul v = (case v of None \<Rightarrow> False | Some s \<Rightarrow> has_nul s)"

section \<open>Class Database\<close>

text \<open>
  Every operation returns its outcome and the store after it: an exception raised after
  the statement ran (line 41) leaves the statement's effect in place, and an exception
  of the driver, raised before the statement is sent, leaves the store as it was.
\<close>

definition fetch_books :: "database \<Rightarrow> book list \<times> database" where
  "fetch_books d = (lib d, d\<lparr>executed := executed d @ [SelectBooks]\<rparr>)"

text \<open>The WHERE clause of line 36.\<close>

definition borrowable :: "int \<Rightarrow> book \<Rightarrow> bool" where
  "borrowable i b \<longleftrightarrow> book_id b = i \<and> borrowed_by b = None"

text \<open>
  Lines 33 to 41. \<open>now\<close> is what \<open>datetime.now()\<close> returns during the call. The
  username is the value handed to the driver: \<open>None\<close> would be sent as NULL (the
  annotation asks for a \<open>str\<close>, which is \<open>Some\<close>). \<open>rowcount\<close> is the number of rows the
  UPDATE matched.
\<close>

definition borrow_book ::
  "int \<Rightarrow> string option \<Rightarrow> string \<Rightarrow> datetime \<Rightarrow> database \<Rightarrow> (exn + unit) \<times> database" where
  "borrow_book i username rd now d =
     (if opt_has_nul username \<or> has_nul rd then (Inl (ValueError NulInString), d)
      else
        (let rowcount = length (filter (borrowable i) (lib d));
             d' = d\<lparr>lib := map (\<lambda>b. if borrowable i b
                                     then b\<lparr>borrowed_by := username,
                                            borrow_date := Some (dt_date now),
                                            return_date := Some rd\<rparr>
                                     else b) (lib d),
                     executed := executed d @ [UpdateBorrow username (dt_date now) rd i]\<rparr>
         in if rowcount = 0 then (Inl (ValueError TakenOrMissing), d') else (Inr (), d')))"

text \<open>Lines 43 to 49: no condition but the id, no look at the row count.\<close>

definition return_book :: "int \<Rightarrow> database \<Rightarrow> (exn + unit) \<times> database" where
  "return_book i d =
     (Inr (), d\<lparr>lib := map (\<lambda>b. if book_id b = i
                                 then b\<lparr>borrowed_by := None, borrow_date := None,
                                        return_date := None\<rparr>
                                 else b) (lib d),
                 executed := executed d @ [UpdateReturn i]\<rparr>)"

text \<open>
  Lines 56 to 63: \<open>fetchone\<close> gives the first row of the result, or \<open>None\<close> when the
  result is empty.
\<close>

definition authenticate_user ::
  "string \<Rightarrow> string \<Rightarrow> database \<Rightarrow> (exn + string option) \<times> database" where
  "authenticate_user u p d =
     (if has_nul u \<or> has_nul p then (Inl (ValueError NulInString), d)
      else
        (let result = filter (\<lambda>r. r_username r = u \<and> r_password r = p) (roles d);
             d' = d\<lparr>executed := executed d @ [SelectRole u p]\<rparr>
         in case result of [] \<Rightarrow> (Inr None, d') | r # _ \<Rightarrow> (Inr (Some (r_role r)), d')))"

section \<open>Observers\<close>

text \<open>
  The two observer classes of the source: the base class, whose \<open>update\<close> raises
  \<open>NotImplementedError\<close> (line 69), and \<open>Logger\<close>, which opens the file
  \<open>library_log.txt\<close> for appending and writes one line, the current time and the
  message.
\<close>

datatype observer = Observer | Logger

section \<open>Class LibraryApp\<close>

text \<open>
  The attributes of the object (\<open>db\<close>, \<open>role\<close>, \<open>username\<close>, \<open>observers\<close>) and the
  surroundings its methods act on: the lines still to be read from the terminal, what
  has been written to it (printed lines and prompts, oldest first), the lines of the
  log file, and the clock. \<open>clock a n\<close> is the result of the \<open>n\<close>th call of
  \<open>datetime.now()\<close>; \<open>ticks\<close> counts the calls made. Two facts of the surroundings
  decide whether the log can be written: \<open>log_openable\<close>, whether \<open>open\<close> of line 75
  succeeds, and \<open>log_encodable m\<close>, whether the encoding the file is opened with (the
  one of the locale) can encode the line written for the message \<open>m\<close>. The terminal is
  taken to accept every text printed.
\<close>

record app =
  db :: database
  role :: "string option"
  username :: "string option"
  observers :: "observer list"
  stdin :: "string list"
  console :: "message list"
  log_file :: "(datetime \<times> message) list"
  clock :: "nat \<Rightarrow> datetime"
  ticks :: nat
  log_openable :: bool
  log_encodable :: "message \<Rightarrow> bool"

definition print :: "message \<Rightarrow> app \<Rightarrow> app" where
  "print m a = a\<lparr>console := console a @ [m]\<rparr>"

text \<open>\<open>input\<close> writes its prompt, then reads a line; at the end of the input it raises.\<close>

definition input :: "message \<Rightarrow> app \<Rightarrow> (exn + string) \<times> app" where
  "input prompt a =
     (case stdin a of
        [] \<Rightarrow> (Inl EOFError, print prompt a)
      | l # ls \<Rightarrow> (Inr l, (print prompt a)\<lparr>stdin := ls\<rparr>))"

text \<open>Python's truth value of an \<open>Optional[str]\<close>: \<open>None\<close> and the empty string are false.\<close>

definition truthy :: "string option \<Rightarrow> bool" where
  "truthy v \<longleftrightarrow> v \<noteq> None \<and> v \<noteq> Some []"

text \<open>
  Lines 66 to 76. The logger opens the file, then reads the clock to build the line,
  then writes: a failed \<open>open\<close> raises before the clock is read, a line that cannot be
  encoded raises after it, and neither leaves anything in the file.
\<close>

fun update :: "observer \<Rightarrow> message \<Rightarrow> app \<Rightarrow> (exn + unit) \<times> app" where
  "update Observer m a = (Inl NotImplementedError, a)"
| "update Logger m a =
     (if \<not> log_openable a then (Inl OSError, a)
      else if \<not> log_encodable a m
      then (Inl (ValueError CannotEncode), a\<lparr>ticks := Suc (ticks a)\<rparr>)
      else (Inr (), a\<lparr>log_file := log_file a @ [(clock a (ticks a), m)],
                     ticks := Suc (ticks a)\<rparr>))"

text \<open>Lines 90 to 93: the loop ends at the first observer that raises.\<close>

fun notify :: "observer list \<Rightarrow> message \<Rightarrow> app \<Rightarrow> (exn + unit) \<times> app" where
  "notify [] m a = (Inr (), a)"
| "notify (ob # obs) m a =
     (case update ob m a of
        (Inl e, a') \<Rightarrow> (Inl e, a')
      | (Inr _, a') \<Rightarrow> notify obs m a')"

definition notify_observers :: "message \<Rightarrow> app \<Rightarrow> (exn + unit) \<times> app" where
  "notify_observers m a = notify (observers a) m a"

definition register_observer :: "observer \<Rightarrow> app \<Rightarrow> app" where
  "register_observer ob a = a\<lparr>observers := observers a @ [ob]\<rparr>"

text \<open>
  Lines 95 to 105. The password is read like a line of input. An exception of
  \<open>authenticate_user\<close> leaves \<open>role\<close> unassigned and is not caught. \<open>exit()\<close> raises
  \<open>SystemExit\<close>, which nothing in the program catches.
\<close>

definition login :: "app \<Rightarrow> (exn + unit) \<times> app" where
  "login a =
     (case input EnterLogin a of
        (Inl e, a1) \<Rightarrow> (Inl e, a1)
      | (Inr u, a1) \<Rightarrow>
          (case input EnterPassword (a1\<lparr>username := Some u\<rparr>) of
             (Inl e, a2) \<Rightarrow> (Inl e, a2)
           | (Inr p, a2) \<Rightarrow>
               (case authenticate_user u p (db a2) of
                  (Inl e, d') \<Rightarrow> (Inl e, a2\<lparr>db := d'\<rparr>)
                | (Inr r, d') \<Rightarrow>
                    (let a3 = a2\<lparr>db := d', role := r\<rparr>
                     in if truthy r then (Inr (), print (Welcome (username a3) r) a3)
                        else (Inl SystemExit, print BadLogin a3)))))"

text \<open>Lines 107 to 112.\<close>

definition status_of :: "book \<Rightarrow> status" where
  "status_of b =
     (case borrowed_by b of
        Some (c # cs) \<Rightarrow> Issued (c # cs) (return_date b)
      | _ \<Rightarrow> Available)"

definition show_books :: "app \<Rightarrow> app" where
  "show_books a =
     (case fetch_books (db a) of
        (books, d') \<Rightarrow>
          foldl (\<lambda>a b. print (BookLine (book_id b) (title b) (author b) (status_of b)) a)
            (print BookListHeader (a\<lparr>db := d'\<rparr>)) books)"

text \<open>
  Lines 124 to 126, the body of the \<open>try\<close> of \<open>LibraryApp.borrow_book\<close>: the gateway
  call reads the clock once, when it builds the parameters of the statement.
\<close>

definition borrow_try :: "int \<Rightarrow> string \<Rightarrow> app \<Rightarrow> (exn + unit) \<times> app" where
  "borrow_try i rd a =
     (case borrow_book i (username a) rd (clock a (ticks a)) (db a) of
        (Inl e, d') \<Rightarrow> (Inl e, a\<lparr>db := d', ticks := Suc (ticks a)\<rparr>)
      | (Inr _, d') \<Rightarrow>
          notify_observers (BookIssued i (username a))
            (print BorrowedOk (a\<lparr>db := d', ticks := Suc (ticks a)\<rparr>)))"

text \<open>
  Lines 114 to 128. \<open>py_int\<close> is Python's \<open>int\<close> on strings, \<open>None\<close> where it raises
  \<open>ValueError\<close>; the conversion stands outside the \<open>try\<close>, so that \<open>ValueError\<close> is
  not caught. The handler catches \<open>ValueError\<close> only, whoever raised it inside the
  \<open>try\<close>: the gateway, the driver or an observer.
\<close>

definition app_borrow_book :: "(string \<Rightarrow> int option) \<Rightarrow> app \<Rightarrow> (exn + unit) \<times> app" where
  "app_borrow_book py_int a =
     (if role a \<noteq> Some ''student'' \<and> role a \<noteq> Some ''librarian''
      then (Inr (), print NoBorrowAccess a)
      else
        (case input EnterBorrowId (show_books a) of
           (Inl e, a1) \<Rightarrow> (Inl e, a1)
         | (Inr s, a1) \<Rightarrow>
             (case py_int s of
                None \<Rightarrow> (Inl (ValueError (InvalidLiteral s)), a1)
              | Some i \<Rightarrow>
                  (case input EnterReturnDate a1 of
                     (Inl e, a2) \<Rightarrow> (Inl e, a2)
                   | (Inr rd, a2) \<Rightarrow>
                       (case borrow_try i rd a2 of
                          (Inl (ValueError m), a3) \<Rightarrow> (Inr (), print m a3)
                        | r \<Rightarrow> r)))))"

text \<open>Lines 139 to 141, the body of the \<open>try\<close> of \<open>LibraryApp.return_book\<close>.\<close>

definition return_try :: "int \<Rightarrow> app \<Rightarrow> (exn + unit) \<times> app" where
  "return_try i a =
     (case return_book i (db a) of
        (Inl e, d') \<Rightarrow> (Inl e, a\<lparr>db := d'\<rparr>)
      | (Inr _, d') \<Rightarrow>
          notify_observers (BookReturned i) (print ReturnedOk (a\<lparr>db := d'\<rparr>)))"

text \<open>Lines 130 to 143.\<close>

definition app_return_book :: "(string \<Rightarrow> int option) \<Rightarrow> app \<Rightarrow> (exn + unit) \<times> app" where
  "app_return_book py_int a =
     (if role a \<noteq> Some ''librarian''
      then (Inr (), print NoReturnAccess a)
      else
        (case input EnterReturnId (show_books a) of
           (Inl e, a1) \<Rightarrow> (Inl e, a1)
         | (Inr s, a1) \<Rightarrow>
             (case py_int s of
                None \<Rightarrow> (Inl (ValueError (InvalidLiteral s)), a1)
              | Some i \<Rightarrow>
                  (case return_try i a1 of
                     (Inl (ValueError m), a2) \<Rightarrow> (Inr (), print m a2)
                   | r \<Rightarrow> r))))"

text \<open>Lines 149 to 154: the menu, with the entries the role may use.\<close>

definition show_menu :: "app \<Rightarrow> app" where
  "show_menu a =
     (let a1 = print MenuShow a;
          a2 = (if role a = Some ''student'' \<or> role a = Some ''librarian''
                then print MenuBorrow a1 else a1);
          a3 = (if role a = Some ''librarian'' then print MenuReturn a2 else a2)
      in print MenuExit a3)"

text \<open>
  Lines 148 to 166. Every pass of the loop reads a line, and \<open>input\<close> raises at the end
  of the input, so the loop ends on every finite input: the number of lines left is the
  measure. The facts below say that no method gives lines back.
\<close>

lemma stdin_print: "stdin (print m a) = stdin a"
  by (simp add: print_def)

lemma stdin_show_books: "stdin (show_books a) = stdin a"
proof -
  have "stdin (foldl (\<lambda>a b. print (f b) a) s bs) = stdin s" for f :: "book \<Rightarrow> message" and s bs
    by (induction bs arbitrary: s) (simp_all add: stdin_print)
  then show ?thesis
    by (simp add: show_books_def fetch_books_def stdin_print)
qed

lemma stdin_input: "input p a = (Inr l, a') \<Longrightarrow> length (stdin a') < length (stdin a)"
  by (auto simp: input_def stdin_print split: list.splits)

lemma stdin_input_le: "input p a = (r, a') \<Longrightarrow> length (stdin a') \<le> length (stdin a)"
  by (auto simp: input_def stdin_print split: list.splits)

lemma stdin_update: "update ob m a = (r, a') \<Longrightarrow> stdin a' = stdin a"
  by (cases ob) (auto split: if_splits)

lemma stdin_notify: "notify obs m a = (r, a') \<Longrightarrow> stdin a' = stdin a"
proof (induction obs arbitrary: a)
  case Nil
  then show ?case by simp
next
  case (Cons ob obs)
  then show ?case
    by (auto split: prod.splits sum.splits dest: stdin_update)
qed

lemma stdin_borrow_try: "borrow_try i rd a = (r, a') \<Longrightarrow> stdin a' = stdin a"
  by (auto simp: borrow_try_def notify_observers_def stdin_print
      split: prod.splits sum.splits dest!: stdin_notify)

lemma stdin_return_try: "return_try i a = (r, a') \<Longrightarrow> stdin a' = stdin a"
  by (auto simp: return_try_def notify_observers_def stdin_print
      split: prod.splits sum.splits dest!: stdin_notify)

lemma stdin_app_borrow_book:
  "app_borrow_book py_int a = (r, a') \<Longrightarrow> length (stdin a') \<le> length (stdin a)"
  by (auto simp: app_borrow_book_def stdin_print stdin_show_books
      split: if_splits prod.splits sum.splits option.splits exn.splits
      dest!: stdin_input_le stdin_borrow_try)

lemma stdin_app_return_book:
  "app_return_book py_int a = (r, a') \<Longrightarrow> length (stdin a') \<le> length (stdin a)"
  by (auto simp: app_return_book_def stdin_print stdin_show_books
      split: if_splits prod.splits sum.splits option.splits exn.splits
      dest!: stdin_input_le stdin_return_try)

lemma stdin_show_menu: "stdin (show_menu a) = stdin a"
  by (simp add: show_menu_def Let_def stdin_print)

function menu_loop :: "(string \<Rightarrow> int option) \<Rightarrow> app \<Rightarrow> (exn + unit) \<times> app" where
  "menu_loop py_int a =
     (case input Choose (show_menu a) of
        (Inl e, a1) \<Rightarrow> (Inl e, a1)
      | (Inr choice, a1) \<Rightarrow>
          if choice = ''1'' then menu_loop py_int (show_books a1)
          else if choice = ''2'' \<and> (role a1 = Some ''student'' \<or> role a1 = Some ''librarian'')
          then (case app_borrow_book py_int a1 of
                  (Inl e, a2) \<Rightarrow> (Inl e, a2)
                | (Inr _, a2) \<Rightarrow> menu_loop py_int a2)
          else if choice = ''3'' \<and> role a1 = Some ''librarian''
          then (case app_return_book py_int a1 of
                  (Inl e, a2) \<Rightarrow> (Inl e, a2)
                | (Inr _, a2) \<Rightarrow> menu_loop py_int a2)
          else if choice = ''0'' then (Inr (), a1)
          else menu_loop py_int (print InvalidChoice a1))"
  by pat_completeness auto
termination
proof (relation "measure (\<lambda>(py_int, a). length (stdin a))", goal_cases)
  case 1
  show ?case by simp
next
  case (2 py_int a x1 a1 choice)
  then show ?case
    using stdin_input [of Choose "show_menu a" choice a1]
    by (simp add: stdin_show_books stdin_show_menu)
next
  case (3 py_int a x1 a1 choice x2 a2 u)
  then show ?case
    using stdin_input [of Choose "show_menu a" choice a1]
      stdin_app_borrow_book [of py_int a1 "Inr u" a2]
    by (simp add: stdin_show_menu)
next
  case (4 py_int a x1 a1 choice x2 a2 u)
  then show ?case
    using stdin_input [of Choose "show_menu a" choice a1]
      stdin_app_return_book [of py_int a1 "Inr u" a2]
    by (simp add: stdin_show_menu)
next
  case (5 py_int a x1 a1 choice)
  then show ?case
    using stdin_input [of Choose "show_menu a" choice a1]
    by (simp add: stdin_print stdin_show_menu)
qed

text \<open>Lines 145 to 146 and the loop.\<close>

definition run :: "(string \<Rightarrow> int option) \<Rightarrow> app \<Rightarrow> (exn + unit) \<times> app" where
  "run py_int a =
     (case login a of
        (Inl e, a1) \<Rightarrow> (Inl e, a1)
      | (Inr _, a1) \<Rightarrow> menu_loop py_int a1)"

declare menu_loop.simps [simp del]

section \<open>Sequences of gateway operations and the invariant of a row\<close>

text \<open>
  The two mutating operations, with the arguments their annotations allow (a username
  is a \<open>str\<close>), each paired with the clock reading of its call. An operation that raises
  has still run its statement, so the sequence goes on from the store it left.
\<close>

datatype operation = Borrow int string string | Return int

fun apply_operation :: "datetime \<Rightarrow> operation \<Rightarrow> database \<Rightarrow> database" where
  "apply_operation now (Borrow i u rd) d = snd (borrow_book i (Some u) rd now d)"
| "apply_operation now (Return i) d = snd (return_book i d)"

fun apply_operations :: "(datetime \<times> operation) list \<Rightarrow> database \<Rightarrow> database" where
  "apply_operations [] d = d"
| "apply_operations ((now, x) # xs) d = apply_operations xs (apply_operation now x d)"

text \<open>The invariant of the data model: the three borrowing columns are null together.\<close>

definition triple_inv :: "book \<Rightarrow> bool" where
  "triple_inv b \<longleftrightarrow>
     (borrowed_by b = None \<longleftrightarrow> borrow_date b = None) \<and>
     (borrow_date b = None \<longleftrightarrow> return_date b = None)"

definition all_null :: "book \<Rightarrow> bool" where
  "all_null b \<longleftrightarrow> borrowed_by b = None \<and> borrow_date b = None \<and> return_date b = None"

definition all_set :: "book \<Rightarrow> bool" where
  "all_set b \<longleftrightarrow> borrowed_by b \<noteq> None \<and> borrow_date b \<noteq> None \<and> return_date b \<noteq> None"

section \<open>Notation for the statements\<close>

text \<open>
  Whether a logger can write the line of a message, and what it raises when it cannot.
\<close>

definition logger_ok :: "app \<Rightarrow> message \<Rightarrow> bool" where
  "logger_ok a m \<longleftrightarrow> log_openable a \<and> log_encodable a m"

definition logger_exn :: "app \<Rightarrow> exn" where
  "logger_exn a = (if log_openable a then ValueError CannotEncode else OSError)"

text \<open>
  The number of observers whose \<open>update\<close> returns before one raises: the loggers at the
  head of the list when a logger can write, none otherwise. \<open>first_raise\<close> is what the
  first observer after them raises, \<open>None\<close> when there is no such observer.
\<close>

definition notified :: "bool \<Rightarrow> observer list \<Rightarrow> nat" where
  "notified ok obs = length (takeWhile (\<lambda>ob. ok \<and> ob = Logger) obs)"

definition first_raise :: "bool \<Rightarrow> exn \<Rightarrow> observer list \<Rightarrow> exn option" where
  "first_raise ok e obs =
     (case dropWhile (\<lambda>ob. ok \<and> ob = Logger) obs of
        [] \<Rightarrow> None
      | Observer # _ \<Rightarrow> Some NotImplementedError
      | Logger # _ \<Rightarrow> Some e)"

text \<open>
  What an action returns when the body of its \<open>try\<close> ends with the given exception:
  the handler turns a \<open>ValueError\<close> into a normal return.
\<close>

definition after_handler :: "exn option \<Rightarrow> exn + unit" where
  "after_handler r =
     (case r of None \<Rightarrow> Inr () | Some (ValueError m) \<Rightarrow> Inr () | Some e \<Rightarrow> Inl e)"

text \<open>
  The \<open>n\<close> lines that \<open>n\<close> loggers in a row append for one message, when the clock has
  been read \<open>t\<close> times before: each logger reads the clock once.
\<close>

definition log_lines :: "(nat \<Rightarrow> datetime) \<Rightarrow> nat \<Rightarrow> message \<Rightarrow> nat \<Rightarrow> (datetime \<times> message) list" where
  "log_lines c t m n = map (\<lambda>k. (c (t + k), m)) [0..<n]"

text \<open>The line that \<open>show_books\<close> prints for a row (line 112).\<close>

definition book_line :: "book \<Rightarrow> message" where
  "book_line b = BookLine (book_id b) (title b) (author b) (status_of b)"

section \<open>A small store for concrete runs\<close>

definition book5 :: book where
  "book5 = \<lparr>book_id = 5, title = ''Dune'', author = ''Herbert'',
            release_date = Date 1965 8 1,
            borrowed_by = None, borrow_date = None, return_date = None\<rparr>"

definition book7 :: book where
  "book7 = \<lparr>book_id = 7, title = ''Emma'', author = ''Austen'',
            release_date = Date 1815 12 23,
            borrowed_by = Some ''bob'', borrow_date = Some (Date 2024 12 1),
            return_date = Some ''2024-12-31''\<rparr>"

definition store0 :: database where
  "store0 = \<lparr>lib = [book5, book7],
             roles = [\<lparr>r_username = ''alice'', r_password = ''wonder'', r_role = ''student''\<rparr>,
                      \<lparr>r_username = ''bob'', r_password = ''builder'', r_role = ''librarian''\<rparr>],
             executed = []\<rparr>"

definition noon :: datetime where
  "noon = DateTime (Date 2024 12 15) 43200"

text \<open>
  A session: the object as \<open>__init__\<close> leaves it, with the given role, username and
  observers, and the given lines waiting at the terminal; the log file can be opened and
  its encoding takes every line.
\<close>

definition session :: "string option \<Rightarrow> string option \<Rightarrow> observer list \<Rightarrow> string list \<Rightarrow> app" where
  "session r u obs ls =
     \<lparr>db = store0, role = r, username = u, observers = obs, stdin = ls, console = [],
      log_file = [], clock = (\<lambda>_. noon), ticks = 0,
      log_openable = True, log_encodable = (\<lambda>_. True)\<rparr>"

text \<open>The same session under a locale whose encoding is ASCII: no line of the log can be encoded.\<close>

definition ascii_session :: "string option \<Rightarrow> string option \<Rightarrow> observer list \<Rightarrow> string list \<Rightarrow> app" where
  "ascii_session r u obs ls = (session r u obs ls)\<lparr>log_encodable := (\<lambda>_. False)\<rparr>"

text \<open>A return date and a password with the character NUL in them.\<close>

definition nul_date :: string where
  "nul_date = ''2025-01-01'' @ [CHR 0x00]"

definition nul_password :: string where
  "nul_password = ''won'' @ [CHR 0x00] @ ''der''"

text \<open>
  A stand-in for \<open>int\<close> in concrete runs: the value of a non-empty string of ASCII
  digits, on which it agrees with Python, and \<open>None\<close> on every other string.
\<close>

definition digits :: "string \<Rightarrow> int option" where
  "digits s =
     (if s \<noteq> [] \<and> list_all (\<lambda>c. c \<in> set ''0123456789'') s
      then Some (foldl (\<lambda>n c. 10 * n + (int (of_char c) - 48)) 0 s)
      else None)"

text \<open>A sequence of gateway calls on that store.\<close>

definition ops0 :: "(datetime \<times> operation) list" where
  "ops0 = [(noon, Borrow 5 ''alice'' ''2025-01-01''), (noon, Borrow 5 ''carol'' ''2025-02-01''),
           (noon, Return 7), (noon, Return 6)]"

section \<open>Facts about the gateway\<close>

lemma borrow_book_nul:
  "opt_has_nul u \<or> has_nul rd \<Longrightarrow> borrow_book i u rd now d = (Inl (ValueError NulInString), d)"
  by (simp add: borrow_book_def)

lemma lib_borrow_book:
  "\<not> opt_has_nul u \<Longrightarrow> \<not> has_nul rd \<Longrightarrow>
   lib (snd (borrow_book i u rd now d)) =
     map (\<lambda>b. if borrowable i b
               then b\<lparr>borrowed_by := u, borrow_date := Some (dt_date now), return_date := Some rd\<rparr>
               else b) (lib d)"
  by (simp add: borrow_book_def Let_def)

lemma fst_borrow_book:
  "\<not> opt_has_nul u \<Longrightarrow> \<not> has_nul rd \<Longrightarrow>
   fst (borrow_book i u rd now d) =
     (if \<exists>b\<in>set (lib d). borrowable i b then Inr () else Inl (ValueError TakenOrMissing))"
  by (auto simp: borrow_book_def Let_def filter_empty_conv)

lemma roles_borrow_book: "roles (snd (borrow_book i u rd now d)) = roles d"
  by (simp add: borrow_book_def Let_def)

lemma executed_borrow_book:
  "executed (snd (borrow_book i u rd now d)) =
     (if opt_has_nul u \<or> has_nul rd then executed d
      else executed d @ [UpdateBorrow u (dt_date now) rd i])"
  by (simp add: borrow_book_def Let_def)

lemma length_lib_borrow_book: "length (lib (snd (borrow_book i u rd now d))) = length (lib d)"
  by (simp add: borrow_book_def Let_def)


lemma lib_return_book:
  "lib (snd (return_book i d)) =
     map (\<lambda>b. if book_id b = i
               then b\<lparr>borrowed_by := None, borrow_date := None, return_date := None\<rparr>
               else b) (lib d)"
  by (simp add: return_book_def)

lemma borrow_book_unmatched:
  "\<not> (\<exists>b\<in>set (lib d). borrowable i b) \<Longrightarrow> lib (snd (borrow_book i u rd now d)) = lib d"
  by (cases "opt_has_nul u \<or> has_nul rd") (simp_all add: borrow_book_nul lib_borrow_book map_idI)

lemma borrow_book_raises:
  "\<not> (\<exists>b\<in>set (lib d). borrowable i b) \<Longrightarrow>
   fst (borrow_book i u rd now d) =
     Inl (ValueError (if opt_has_nul u \<or> has_nul rd then NulInString else TakenOrMissing))"
  by (cases "opt_has_nul u \<or> has_nul rd") (simp_all add: borrow_book_nul fst_borrow_book)


lemma fst_return_book: "fst (return_book i d) = Inr ()"
  by (simp add: return_book_def)

lemma roles_return_book: "roles (snd (return_book i d)) = roles d"
  by (simp add: return_book_def)

lemma executed_return_book:
  "executed (snd (return_book i d)) = executed d @ [UpdateReturn i]"
  by (simp add: return_book_def)

lemma clear_all_null:
  "all_null b \<Longrightarrow> b\<lparr>borrowed_by := None, borrow_date := None, return_date := None\<rparr> = b"
  by (rule book.equality) (simp_all add: all_null_def)

lemma authenticate_user_nul:
  "has_nul u \<or> has_nul p \<Longrightarrow> authenticate_user u p d = (Inl (ValueError NulInString), d)"
  by (simp add: authenticate_user_def)

lemma authenticate_user_find:
  assumes "\<not> has_nul u" and "\<not> has_nul p"
  shows "fst (authenticate_user u p d) =
     Inr (map_option r_role (find (\<lambda>r. r_username r = u \<and> r_password r = p) (roles d)))"
proof -
  have aux: "(case filter P rs of [] \<Rightarrow> (Inr None, d') | r # _ \<Rightarrow> (Inr (Some (r_role r)), d')) =
        (Inr (map_option r_role (find P rs)) :: exn + string option, d')"
    for P d' and rs :: "roles_row list"
    by (induction rs) auto
  show ?thesis
    using assms by (simp add: authenticate_user_def Let_def aux)
qed

lemma authenticate_user_frame:
  "lib (snd (authenticate_user u p d)) = lib d \<and> roles (snd (authenticate_user u p d)) = roles d"
  by (simp add: authenticate_user_def Let_def split: list.split)

lemma executed_authenticate_user:
  "executed (snd (authenticate_user u p d)) =
     (if has_nul u \<or> has_nul p then executed d else executed d @ [SelectRole u p])"
  by (simp add: authenticate_user_def Let_def split: list.split)


lemma ballot_map:
  "(\<And>b. b \<in> set xs \<Longrightarrow> P (f b)) \<Longrightarrow> \<forall>b'\<in>set (map f xs). P b'"
  by (induction xs) simp_all

lemma length_lib_apply_operation:
  "length (lib (apply_operation now x d)) = length (lib d)"
  by (cases x) (simp_all add: length_lib_borrow_book lib_return_book)

lemma triple_inv_apply_operation:
  assumes "\<forall>b\<in>set (lib d). triple_inv b"
  shows "\<forall>b\<in>set (lib (apply_operation now x d)). triple_inv b"
proof (cases x)
  case (Borrow i u rd)
  show ?thesis
  proof (cases "has_nul u \<or> has_nul rd")
    case True
    then show ?thesis
      using assms by (simp add: Borrow borrow_book_nul opt_has_nul_def)
  next
    case False
    then have n: "\<not> opt_has_nul (Some u)" "\<not> has_nul rd"
      by (simp_all add: opt_has_nul_def)
    show ?thesis
      unfolding Borrow apply_operation.simps lib_borrow_book [OF n]
    proof (rule ballot_map)
      fix b assume "b \<in> set (lib d)"
      with assms have "triple_inv b" by blast
      then show "triple_inv (if borrowable i b
          then b\<lparr>borrowed_by := Some u, borrow_date := Some (dt_date now), return_date := Some rd\<rparr>
          else b)"
        by (simp add: triple_inv_def)
    qed
  qed
next
  case (Return i)
  show ?thesis
    unfolding Return apply_operation.simps lib_return_book
  proof (rule ballot_map)
    fix b assume "b \<in> set (lib d)"
    with assms have "triple_inv b" by blast
    then show "triple_inv (if book_id b = i
        then b\<lparr>borrowed_by := None, borrow_date := None, return_date := None\<rparr>
        else b)"
      by (simp add: triple_inv_def)
  qed
qed


lemma triple_inv_apply_operations:
  "\<forall>b\<in>set (lib d). triple_inv b \<Longrightarrow> \<forall>b\<in>set (lib (apply_operations xs d)). triple_inv b"
proof (induction xs arbitrary: d)
  case Nil
  then show ?case by simp
next
  case (Cons p xs)
  obtain now x where p: "p = (now, x)" by (cases p)
  from Cons.prems have "\<forall>b\<in>set (lib (apply_operation now x d)). triple_inv b"
    by (rule triple_inv_apply_operation)
  then show ?case
    unfolding p apply_operations.simps by (rule Cons.IH)
qed

lemma apply_operation_row:
  assumes "n < length (lib d)"
  shows "lib (apply_operation now x d) ! n = lib d ! n \<or>
     (\<exists>u t rd. lib (apply_operation now x d) ! n =
        (lib d ! n)\<lparr>borrowed_by := Some u, borrow_date := Some t, return_date := Some rd\<rparr>) \<or>
     lib (apply_operation now x d) ! n =
        (lib d ! n)\<lparr>borrowed_by := None, borrow_date := None, return_date := None\<rparr>"
proof (cases x)
  case (Borrow i u rd)
  show ?thesis
  proof (cases "\<not> opt_has_nul (Some u) \<and> \<not> has_nul rd \<and> borrowable i (lib d ! n)")
    case True
    with assms have "lib (apply_operation now x d) ! n =
        (lib d ! n)\<lparr>borrowed_by := Some u, borrow_date := Some (dt_date now), return_date := Some rd\<rparr>"
      by (simp add: Borrow lib_borrow_book)
    then show ?thesis by blast
  next
    case False
    have "lib (apply_operation now x d) ! n = lib d ! n"
    proof (cases "opt_has_nul (Some u) \<or> has_nul rd")
      case True
      then show ?thesis by (simp add: Borrow borrow_book_nul)
    next
      case nf: False
      with False assms show ?thesis
        by (simp add: Borrow lib_borrow_book)
    qed
    then show ?thesis by blast
  qed
next
  case (Return i)
  with assms show ?thesis
    by (simp add: lib_return_book)
qed

lemma lib_borrow_then_return:
  "lib (snd (return_book i (snd (borrow_book i u rd now d)))) =
     map (\<lambda>b. if book_id b = i
               then b\<lparr>borrowed_by := None, borrow_date := None, return_date := None\<rparr>
               else b) (lib d)"
proof (cases "opt_has_nul u \<or> has_nul rd")
  case True
  then show ?thesis
    by (simp add: borrow_book_nul lib_return_book)
next
  case False
  then have n: "\<not> opt_has_nul u" "\<not> has_nul rd" by simp_all
  have "(if book_id (if borrowable i b
                      then b\<lparr>borrowed_by := u, borrow_date := Some (dt_date now),
                             return_date := Some rd\<rparr>
                      else b) = i
         then (if borrowable i b
               then b\<lparr>borrowed_by := u, borrow_date := Some (dt_date now),
                      return_date := Some rd\<rparr>
               else b)\<lparr>borrowed_by := None, borrow_date := None, return_date := None\<rparr>
         else (if borrowable i b
               then b\<lparr>borrowed_by := u, borrow_date := Some (dt_date now),
                      return_date := Some rd\<rparr>
               else b)) =
        (if book_id b = i
         then b\<lparr>borrowed_by := None, borrow_date := None, return_date := None\<rparr>
         else b)" for b
    by (cases "borrowable i b") (simp_all add: borrowable_def)
  then show ?thesis
    unfolding lib_return_book lib_borrow_book [OF n] map_map comp_def by simp
qed


lemma lib_return_twice:
  "lib (snd (return_book i (snd (return_book i d)))) = lib (snd (return_book i d))"
proof -
  have "lib (snd (return_book i (snd (return_book i d)))) =
          map (\<lambda>b. if book_id b = i
                    then b\<lparr>borrowed_by := None, borrow_date := None, return_date := None\<rparr>
                    else b) (lib (snd (return_book i d)))"
    by (rule lib_return_book)
  also have "\<dots> = lib (snd (return_book i d))"
  proof (rule map_idI)
    fix b' assume "b' \<in> set (lib (snd (return_book i d)))"
    from this [unfolded lib_return_book set_map] obtain b
      where "b' = (if book_id b = i
                   then b\<lparr>borrowed_by := None, borrow_date := None, return_date := None\<rparr>
                   else b)"
      by blast
    then show "(if book_id b' = i
                then b'\<lparr>borrowed_by := None, borrow_date := None, return_date := None\<rparr>
                else b') = b'"
      by (cases "book_id b = i") simp_all
  qed
  finally show ?thesis .
qed

section \<open>Facts about the application\<close>

lemma foldl_print:
  "foldl (\<lambda>a b. a\<lparr>console := console a @ [f b]\<rparr>) s bs = s\<lparr>console := console s @ map f bs\<rparr>"
  by (induction bs arbitrary: s) simp_all

lemma show_books_eq:
  "show_books a =
     a\<lparr>db := (db a)\<lparr>executed := executed (db a) @ [SelectBooks]\<rparr>,
       console := console a @ BookListHeader # map book_line (lib (db a))\<rparr>"
  by (simp add: show_books_def fetch_books_def print_def foldl_print book_line_def [abs_def])

lemma input_Cons:
  "stdin a = l # ls \<Longrightarrow> input p a = (Inr l, a\<lparr>console := console a @ [p], stdin := ls\<rparr>)"
  by (simp add: input_def print_def)

lemma update_frame:
  "update ob m a = (r, a') \<Longrightarrow>
   db a' = db a \<and> role a' = role a \<and> username a' = username a \<and>
   observers a' = observers a \<and> stdin a' = stdin a \<and> console a' = console a \<and>
   clock a' = clock a \<and> log_openable a' = log_openable a \<and>
   log_encodable a' = log_encodable a"
  by (cases ob) (auto split: if_splits)

lemma notify_frame:
  "notify obs m a = (r, a') \<Longrightarrow>
   db a' = db a \<and> role a' = role a \<and> username a' = username a \<and>
   observers a' = observers a \<and> stdin a' = stdin a \<and> console a' = console a \<and>
   clock a' = clock a \<and> log_openable a' = log_openable a \<and>
   log_encodable a' = log_encodable a"
proof (induction obs arbitrary: a)
  case Nil
  then show ?case by simp
next
  case (Cons ob obs)
  obtain r1 a1 where u: "update ob m a = (r1, a1)"
    by (cases "update ob m a")
  note f = update_frame [OF u]
  show ?case
  proof (cases r1)
    case (Inl e)
    with Cons.prems u f show ?thesis by simp
  next
    case (Inr x)
    with Cons.prems u have "notify obs m a1 = (r, a')" by simp
    from Cons.IH [OF this] f show ?thesis by simp
  qed
qed

lemma notify_fst:
  "fst (notify obs m a) =
     (case first_raise (logger_ok a m) (logger_exn a) obs of
        None \<Rightarrow> Inr () | Some e \<Rightarrow> Inl e)"
proof (induction obs arbitrary: a)
  case Nil
  show ?case by (simp add: first_raise_def)
next
  case (Cons ob obs)
  show ?case
  proof (cases ob)
    case Observer
    then show ?thesis by (simp add: first_raise_def)
  next
    case Logger
    show ?thesis
    proof (cases "logger_ok a m")
      case True
      let ?a1 = "a\<lparr>log_file := log_file a @ [(clock a (ticks a), m)], ticks := Suc (ticks a)\<rparr>"
      from True have o: "log_openable a" "log_encodable a m"
        by (simp_all add: logger_ok_def)
      have k: "logger_ok ?a1 m = logger_ok a m" "logger_exn ?a1 = logger_exn a"
        by (simp_all add: logger_ok_def logger_exn_def)
      have "first_raise True (logger_exn a) (Logger # obs) = first_raise True (logger_exn a) obs"
        by (simp add: first_raise_def)
      with True o show ?thesis
        unfolding Logger by (simp add: Cons.IH k)
    next
      case False
      then show ?thesis
        unfolding Logger by (auto simp: logger_ok_def logger_exn_def first_raise_def)
    qed
  qed
qed

lemma notify_log:
  "log_file (snd (notify obs m a)) =
     log_file a @ log_lines (clock a) (ticks a) m (notified (logger_ok a m) obs)"
proof (induction obs arbitrary: a)
  case Nil
  show ?case by (simp add: notified_def log_lines_def)
next
  case (Cons ob obs)
  show ?case
  proof (cases ob)
    case Observer
    then show ?thesis by (simp add: notified_def log_lines_def)
  next
    case Logger
    show ?thesis
    proof (cases "logger_ok a m")
      case True
      let ?a1 = "a\<lparr>log_file := log_file a @ [(clock a (ticks a), m)], ticks := Suc (ticks a)\<rparr>"
      from True have o: "log_openable a" "log_encodable a m"
        by (simp_all add: logger_ok_def)
      have k: "logger_ok ?a1 m = logger_ok a m"
        by (simp add: logger_ok_def)
      have n: "notified True (Logger # obs) = Suc (notified True obs)"
        by (simp add: notified_def)
      from True o show ?thesis
        unfolding Logger
        by (simp add: Cons.IH k n log_lines_def map_upt_Suc del: upt_Suc)
    next
      case False
      then have "log_file (snd (update Logger m a)) = log_file a"
        "\<exists>e. fst (update Logger m a) = Inl e"
        by (auto simp: logger_ok_def)
      with False show ?thesis
        unfolding Logger
        by (auto simp: notified_def log_lines_def split: prod.split sum.split)
    qed
  qed
qed

lemma notify_observers_frame:
  "db (snd (notify_observers m a)) = db a \<and> role (snd (notify_observers m a)) = role a \<and>
   username (snd (notify_observers m a)) = username a \<and>
   observers (snd (notify_observers m a)) = observers a \<and>
   stdin (snd (notify_observers m a)) = stdin a \<and>
   console (snd (notify_observers m a)) = console a"
  using notify_frame [of "observers a" m a "fst (notify_observers m a)" "snd (notify_observers m a)"]
  by (simp add: notify_observers_def)

text \<open>The outcome of the gateway call inside \<open>LibraryApp.borrow_book\<close>.\<close>

lemma borrow_try_fst:
  "fst (borrow_try i rd a) =
     (if opt_has_nul (username a) \<or> has_nul rd then Inl (ValueError NulInString)
      else if \<not> (\<exists>b\<in>set (lib (db a)). borrowable i b) then Inl (ValueError TakenOrMissing)
      else (case first_raise (logger_ok a (BookIssued i (username a))) (logger_exn a)
                   (observers a) of
              None \<Rightarrow> Inr () | Some e \<Rightarrow> Inl e))"
proof -
  let ?bb = "borrow_book i (username a) rd (clock a (ticks a)) (db a)"
  let ?a1 = "print BorrowedOk (a\<lparr>db := snd ?bb, ticks := Suc (ticks a)\<rparr>)"
  have k: "logger_ok ?a1 m = logger_ok a m" "logger_exn ?a1 = logger_exn a"
    "observers ?a1 = observers a" for m
    by (simp_all add: logger_ok_def logger_exn_def print_def)
  show ?thesis
  proof (cases "opt_has_nul (username a) \<or> has_nul rd")
    case True
    then show ?thesis
      by (simp add: borrow_try_def borrow_book_nul)
  next
    case False
    then have n: "\<not> opt_has_nul (username a)" "\<not> has_nul rd" by simp_all
    obtain r d' where bb: "?bb = (r, d')" by (cases ?bb)
    with fst_borrow_book [OF n, of i "clock a (ticks a)" "db a"]
    have r: "r = (if \<exists>b\<in>set (lib (db a)). borrowable i b then Inr ()
                  else Inl (ValueError TakenOrMissing))"
      by simp
    from k(1) [of "BookIssued i (username a)"] k(2,3) bb
    have "fst (notify_observers (BookIssued i (username a))
                 (print BorrowedOk (a\<lparr>db := d', ticks := Suc (ticks a)\<rparr>))) =
          (case first_raise (logger_ok a (BookIssued i (username a))) (logger_exn a)
                  (observers a) of
             None \<Rightarrow> Inr () | Some e \<Rightarrow> Inl e)"
      by (simp add: notify_observers_def notify_fst)
    with False show ?thesis
      by (simp add: borrow_try_def bb r)
  qed
qed

lemma borrow_try_log:
  "log_file (snd (borrow_try i rd a)) =
     log_file a @
     (if \<not> opt_has_nul (username a) \<and> \<not> has_nul rd \<and>
         (\<exists>b\<in>set (lib (db a)). borrowable i b)
      then log_lines (clock a) (Suc (ticks a)) (BookIssued i (username a))
             (notified (logger_ok a (BookIssued i (username a))) (observers a))
      else [])"
proof -
  let ?bb = "borrow_book i (username a) rd (clock a (ticks a)) (db a)"
  show ?thesis
  proof (cases "opt_has_nul (username a) \<or> has_nul rd")
    case True
    then show ?thesis
      by (auto simp: borrow_try_def borrow_book_nul)
  next
    case False
    then have n: "\<not> opt_has_nul (username a)" "\<not> has_nul rd" by simp_all
    obtain r d' where bb: "?bb = (r, d')" by (cases ?bb)
    with fst_borrow_book [OF n, of i "clock a (ticks a)" "db a"]
    have r: "r = (if \<exists>b\<in>set (lib (db a)). borrowable i b then Inr ()
                  else Inl (ValueError TakenOrMissing))"
      by simp
    let ?a1 = "print BorrowedOk (a\<lparr>db := d', ticks := Suc (ticks a)\<rparr>)"
    have "log_file (snd (notify_observers (BookIssued i (username a)) ?a1)) =
        log_file a @ log_lines (clock a) (Suc (ticks a)) (BookIssued i (username a))
             (notified (logger_ok a (BookIssued i (username a))) (observers a))"
      by (simp add: notify_observers_def notify_log print_def logger_ok_def)
    with False show ?thesis
      by (simp add: borrow_try_def bb r)
  qed
qed

lemma borrow_try_frame:
  "db (snd (borrow_try i rd a)) = snd (borrow_book i (username a) rd (clock a (ticks a)) (db a)) \<and>
   role (snd (borrow_try i rd a)) = role a \<and>
   username (snd (borrow_try i rd a)) = username a \<and>
   stdin (snd (borrow_try i rd a)) = stdin a \<and>
   console (snd (borrow_try i rd a)) =
     console a @ (if fst (borrow_book i (username a) rd (clock a (ticks a)) (db a)) = Inr ()
                  then [BorrowedOk] else [])"
proof -
  let ?bb = "borrow_book i (username a) rd (clock a (ticks a)) (db a)"
  obtain r d' where bb: "?bb = (r, d')" by (cases ?bb)
  show ?thesis
  proof (cases r)
    case (Inl e)
    with bb show ?thesis by (simp add: borrow_try_def)
  next
    case (Inr x)
    with bb notify_observers_frame [of "BookIssued i (username a)"
        "print BorrowedOk (a\<lparr>db := d', ticks := Suc (ticks a)\<rparr>)"]
    show ?thesis
      by (simp add: borrow_try_def print_def)
  qed
qed

lemma return_try_fst:
  "fst (return_try i a) =
     (case first_raise (logger_ok a (BookReturned i)) (logger_exn a) (observers a) of
        None \<Rightarrow> Inr () | Some e \<Rightarrow> Inl e)"
  by (simp add: return_try_def return_book_def notify_observers_def notify_fst print_def
      logger_ok_def logger_exn_def)

lemma return_try_log:
  "log_file (snd (return_try i a)) =
     log_file a @
     log_lines (clock a) (ticks a) (BookReturned i)
       (notified (logger_ok a (BookReturned i)) (observers a))"
  by (simp add: return_try_def return_book_def notify_observers_def notify_log print_def
      logger_ok_def)

lemma return_try_frame:
  "db (snd (return_try i a)) = snd (return_book i (db a)) \<and>
   role (snd (return_try i a)) = role a \<and>
   username (snd (return_try i a)) = username a \<and>
   stdin (snd (return_try i a)) = stdin a \<and>
   console (snd (return_try i a)) = console a @ [ReturnedOk]"
  using notify_observers_frame [of "BookReturned i"
      "print ReturnedOk (a\<lparr>db := snd (return_book i (db a))\<rparr>)"]
  by (simp add: return_try_def return_book_def print_def)

text \<open>The handler of lines 127 and 142, applied to the outcome of the body of the \<open>try\<close>.\<close>

lemma handler_fst:
  "fst (case t of (Inl (ValueError m), a3) \<Rightarrow> (Inr (), print m a3) | r \<Rightarrow> r) =
     (case fst t of Inl (ValueError m) \<Rightarrow> Inr () | r \<Rightarrow> r)"
  by (cases t) (simp split: sum.split exn.split)

lemma handler_console:
  "console (snd (case t of (Inl (ValueError m), a3) \<Rightarrow> (Inr (), print m a3) | r \<Rightarrow> r)) =
     console (snd t) @ (case fst t of Inl (ValueError m) \<Rightarrow> [m] | _ \<Rightarrow> [])"
  by (cases t) (simp add: print_def split: sum.split exn.split)

lemma handler_frame:
  "db (snd (case t of (Inl (ValueError m), a3) \<Rightarrow> (Inr (), print m a3) | r \<Rightarrow> r)) = db (snd t) \<and>
   role (snd (case t of (Inl (ValueError m), a3) \<Rightarrow> (Inr (), print m a3) | r \<Rightarrow> r)) = role (snd t) \<and>
   username (snd (case t of (Inl (ValueError m), a3) \<Rightarrow> (Inr (), print m a3) | r \<Rightarrow> r)) =
     username (snd t) \<and>
   stdin (snd (case t of (Inl (ValueError m), a3) \<Rightarrow> (Inr (), print m a3) | r \<Rightarrow> r)) = stdin (snd t) \<and>
   log_file (snd (case t of (Inl (ValueError m), a3) \<Rightarrow> (Inr (), print m a3) | r \<Rightarrow> r)) =
     log_file (snd t)"
  by (cases t) (simp add: print_def split: sum.split exn.split)

lemma app_return_book_eq:
  assumes "role a = Some ''librarian''" and "stdin a = s # rest" and "py_int s = Some i"
  shows "app_return_book py_int a =
     (case return_try i
             (a\<lparr>db := (db a)\<lparr>executed := executed (db a) @ [SelectBooks]\<rparr>,
                console := console a @ BookListHeader # map book_line (lib (db a))
                           @ [EnterReturnId],
                stdin := rest\<rparr>) of
        (Inl (ValueError m), a2) \<Rightarrow> (Inr (), print m a2)
      | r \<Rightarrow> r)"
proof -
  have 1: "input EnterReturnId (show_books a) =
      (Inr s, a\<lparr>db := (db a)\<lparr>executed := executed (db a) @ [SelectBooks]\<rparr>,
                 console := console a @ BookListHeader # map book_line (lib (db a))
                            @ [EnterReturnId],
                 stdin := rest\<rparr>)"
    using assms(2) by (simp add: show_books_eq input_Cons)
  from assms(1) have g: "\<not> role a \<noteq> Some ''librarian''"
    by blast
  show ?thesis
    unfolding app_return_book_def
    by (simp only: g if_False 1 assms(3) prod.case sum.case option.case)
qed


lemma app_borrow_book_eq:
  assumes "role a = Some ''student'' \<or> role a = Some ''librarian''"
    and "stdin a = s # rd # rest" and "py_int s = Some i"
  shows "app_borrow_book py_int a =
     (case borrow_try i rd
             (a\<lparr>db := (db a)\<lparr>executed := executed (db a) @ [SelectBooks]\<rparr>,
                console := console a @ BookListHeader # map book_line (lib (db a))
                           @ [EnterBorrowId, EnterReturnDate],
                stdin := rest\<rparr>) of
        (Inl (ValueError m), a3) \<Rightarrow> (Inr (), print m a3)
      | r \<Rightarrow> r)"
proof -
  let ?a1 = "a\<lparr>db := (db a)\<lparr>executed := executed (db a) @ [SelectBooks]\<rparr>,
                console := console a @ BookListHeader # map book_line (lib (db a))
                           @ [EnterBorrowId],
                stdin := rd # rest\<rparr>"
  have 1: "input EnterBorrowId (show_books a) = (Inr s, ?a1)"
    using assms(2) by (simp add: show_books_eq input_Cons)
  have 2: "input EnterReturnDate ?a1 =
      (Inr rd, a\<lparr>db := (db a)\<lparr>executed := executed (db a) @ [SelectBooks]\<rparr>,
                  console := console a @ BookListHeader # map book_line (lib (db a))
                             @ [EnterBorrowId, EnterReturnDate],
                  stdin := rest\<rparr>)"
    by (simp add: input_Cons)
  from assms(1) have g: "\<not> (role a \<noteq> Some ''student'' \<and> role a \<noteq> Some ''librarian'')"
    by blast
  show ?thesis
    unfolding app_borrow_book_def by (simp only: g if_False 1 2 assms(3) prod.case sum.case option.case)
qed

lemma login_eq:
  assumes "stdin a = u # p # rest"
  shows "login a =
     (case authenticate_user u p (db a) of
        (Inl e, d') \<Rightarrow>
          (Inl e, a\<lparr>db := d', username := Some u, stdin := rest,
                     console := console a @ [EnterLogin, EnterPassword]\<rparr>)
      | (Inr r, d') \<Rightarrow>
          (if truthy r
           then (Inr (), a\<lparr>db := d', role := r, username := Some u, stdin := rest,
                           console := console a @ [EnterLogin, EnterPassword, Welcome (Some u) r]\<rparr>)
           else (Inl SystemExit,
                 a\<lparr>db := d', role := r, username := Some u, stdin := rest,
                   console := console a @ [EnterLogin, EnterPassword, BadLogin]\<rparr>)))"
proof -
  let ?a1 = "a\<lparr>console := console a @ [EnterLogin], stdin := p # rest\<rparr>"
  have 1: "input EnterLogin a = (Inr u, ?a1)"
    using assms by (simp add: input_Cons)
  have 2: "input EnterPassword (?a1\<lparr>username := Some u\<rparr>) =
      (Inr p, a\<lparr>username := Some u, console := console a @ [EnterLogin, EnterPassword],
                 stdin := rest\<rparr>)"
    by (simp add: input_Cons)
  obtain r d' where au: "authenticate_user u p (db a) = (r, d')"
    by (cases "authenticate_user u p (db a)")
  show ?thesis
    unfolding login_def by (cases r) (simp_all add: 1 2 au Let_def print_def)
qed


lemma borrowed_not_borrowable:
  assumes "distinct (map book_id xs)" and "b \<in> set xs" and "borrowed_by b \<noteq> None"
  shows "\<not> (\<exists>b'\<in>set xs. borrowable (book_id b) b')"
proof
  assume "\<exists>b'\<in>set xs. borrowable (book_id b) b'"
  then obtain b' where b': "b' \<in> set xs" "book_id b' = book_id b" "borrowed_by b' = None"
    by (auto simp: borrowable_def)
  from assms(1) have "inj_on book_id (set xs)"
    by (simp add: distinct_map)
  with b'(1,2) assms(2) have "b' = b"
    by (auto dest: inj_onD)
  with b'(3) assms(3) show False by simp
qed

lemma not_borrowable_after_borrow:
  assumes "fst (borrow_book i (Some u) rd now d) = Inr ()"
  shows "\<not> (\<exists>b\<in>set (lib (snd (borrow_book i (Some u) rd now d))). borrowable i b)"
proof -
  from assms have n: "\<not> opt_has_nul (Some u)" "\<not> has_nul rd"
    using borrow_book_nul [of "Some u" rd i now d] by auto
  have "\<forall>b\<in>set (lib (snd (borrow_book i (Some u) rd now d))). \<not> borrowable i b"
    unfolding lib_borrow_book [OF n]
    by (rule ballot_map) (simp add: borrowable_def)
  then show ?thesis by blast
qed

lemma app_borrow_book_unavailable:
  assumes "role a = Some ''student'' \<or> role a = Some ''librarian''"
    and "stdin a = s # rd # rest" and "py_int s = Some i"
    and "\<not> (\<exists>b\<in>set (lib (db a)). borrowable i b)"
  shows "fst (app_borrow_book py_int a) = Inr () \<and>
     lib (db (snd (app_borrow_book py_int a))) = lib (db a) \<and>
     roles (db (snd (app_borrow_book py_int a))) = roles (db a) \<and>
     log_file (snd (app_borrow_book py_int a)) = log_file a \<and>
     console (snd (app_borrow_book py_int a)) =
       console a @ BookListHeader # map book_line (lib (db a))
       @ [EnterBorrowId, EnterReturnDate,
          if opt_has_nul (username a) \<or> has_nul rd then NulInString else TakenOrMissing] \<and>
     stdin (snd (app_borrow_book py_int a)) = rest \<and>
     role (snd (app_borrow_book py_int a)) = role a \<and>
     username (snd (app_borrow_book py_int a)) = username a"
proof -
  let ?a2 = "a\<lparr>db := (db a)\<lparr>executed := executed (db a) @ [SelectBooks]\<rparr>,
                console := console a @ BookListHeader # map book_line (lib (db a))
                           @ [EnterBorrowId, EnterReturnDate],
                stdin := rest\<rparr>"
  let ?t = "borrow_try i rd ?a2"
  let ?m = "if opt_has_nul (username a) \<or> has_nul rd then NulInString else TakenOrMissing"
  have eq: "app_borrow_book py_int a =
     (case ?t of (Inl (ValueError m), a3) \<Rightarrow> (Inr (), print m a3) | r \<Rightarrow> r)"
    using app_borrow_book_eq [of a s rd rest py_int i] assms(1-3) by blast
  let ?d = "(db a)\<lparr>executed := executed (db a) @ [SelectBooks]\<rparr>"
  from assms(4) have nb: "\<not> (\<exists>b\<in>set (lib (db ?a2)). borrowable i b)"
    and nd: "\<not> (\<exists>b\<in>set (lib ?d). borrowable i b)"
    by simp_all
  have f: "fst ?t = Inl (ValueError ?m)"
    using nb by (simp add: borrow_try_fst)
  have l: "log_file (snd ?t) = log_file a"
    using nb by (simp add: borrow_try_log)
  have g: "fst (borrow_book i (username a) rd (clock a (ticks a)) ?d) = Inl (ValueError ?m)"
    using borrow_book_raises [OF nd] by simp
  have u: "lib (snd (borrow_book i (username a) rd (clock a (ticks a)) ?d)) = lib (db a)"
    using borrow_book_unmatched [OF nd] by simp
  note fr = borrow_try_frame [of i rd ?a2]
  show ?thesis
    unfolding eq
    by (simp add: handler_fst handler_console handler_frame f l fr g u roles_borrow_book)
qed

lemma first_raise_value_error:
  "first_raise (logger_ok a m) (logger_exn a) obs = Some (ValueError x) \<longleftrightarrow>
     x = CannotEncode \<and> log_openable a \<and> \<not> log_encodable a m \<and>
     (\<exists>later. obs = Logger # later)"
proof (cases "logger_ok a m")
  case True
  have fr: "first_raise True e obs =
      (case dropWhile (\<lambda>ob. ob = Logger) obs of
         [] \<Rightarrow> None
       | Observer # _ \<Rightarrow> Some NotImplementedError
       | Logger # _ \<Rightarrow> Some e)" for e
    by (simp add: first_raise_def)
  have nv: "first_raise True e obs \<noteq> Some (ValueError x)" for e
  proof (cases "dropWhile (\<lambda>ob. ob = Logger) obs")
    case Nil
    show ?thesis unfolding fr Nil by simp
  next
    case (Cons ob rest)
    from hd_dropWhile [of "\<lambda>ob. ob = Logger" obs] Cons have "ob \<noteq> Logger"
      by auto
    then have ob: "ob = Observer" by (cases ob) simp_all
    show ?thesis unfolding fr Cons ob by simp
  qed
  from True have ok: "logger_ok a m = True" by simp
  have l: "first_raise (logger_ok a m) (logger_exn a) obs \<noteq> Some (ValueError x)"
    unfolding ok by (rule nv)
  have r: "\<not> (x = CannotEncode \<and> log_openable a \<and> \<not> log_encodable a m \<and>
     (\<exists>later. obs = Logger # later))"
    using True by (simp add: logger_ok_def)
  from l r show ?thesis by blast
next
  case False
  then show ?thesis
    by (cases obs; cases "hd obs")
      (auto simp: first_raise_def logger_ok_def logger_exn_def)
qed

lemma notified_all:
  "list_all (\<lambda>ob. ob = Logger) obs \<Longrightarrow>
   notified True obs = length obs \<and> first_raise True e obs = None \<and>
   notified True (obs @ Observer # later) = length obs \<and>
   first_raise True e (obs @ Observer # later) = Some NotImplementedError"
  by (induction obs) (simp_all add: notified_def first_raise_def)

lemma input_keeps:
  "input p a = (r, a') \<Longrightarrow> role a' = role a \<and> db a' = db a \<and> log_file a' = log_file a"
  by (auto simp: input_def print_def split: list.splits)

lemma show_menu_keeps:
  "role (show_menu a) = role a \<and> db (show_menu a) = db a \<and> log_file (show_menu a) = log_file a"
  by (simp add: show_menu_def print_def Let_def)

lemma app_borrow_book_keeps:
  "role (snd (app_borrow_book py_int a)) = role a \<and>
   (UpdateReturn i \<in> set (executed (db (snd (app_borrow_book py_int a)))) \<longrightarrow>
    UpdateReturn i \<in> set (executed (db a)))"
proof (cases "role a = Some ''student'' \<or> role a = Some ''librarian''")
  case False
  then show ?thesis
    by (simp add: app_borrow_book_def print_def)
next
  case allowed: True
  show ?thesis
  proof (cases "stdin a")
    case Nil
    with allowed show ?thesis
      by (auto simp: app_borrow_book_def show_books_eq input_def print_def)
  next
    case (Cons s t)
    show ?thesis
    proof (cases "py_int s")
      case None
      with allowed Cons show ?thesis
        by (auto simp: app_borrow_book_def show_books_eq input_def print_def)
    next
      case (Some j)
      show ?thesis
      proof (cases t)
        case Nil
        with allowed Cons Some show ?thesis
          by (auto simp: app_borrow_book_def show_books_eq input_def print_def)
      next
        case t: (Cons rd rest)
        let ?a2 = "a\<lparr>db := (db a)\<lparr>executed := executed (db a) @ [SelectBooks]\<rparr>,
                      console := console a @ BookListHeader # map book_line (lib (db a))
                                 @ [EnterBorrowId, EnterReturnDate],
                      stdin := rest\<rparr>"
        have eq: "app_borrow_book py_int a =
           (case borrow_try j rd ?a2 of
              (Inl (ValueError m), a3) \<Rightarrow> (Inr (), print m a3) | r \<Rightarrow> r)"
          using app_borrow_book_eq [of a s rd rest py_int j] allowed Cons t Some by blast
        note fr = borrow_try_frame [of j rd ?a2]
        show ?thesis
          unfolding eq
          by (simp add: handler_frame fr executed_borrow_book)
      qed
    qed
  qed
qed


lemma menu_loop_no_return:
  "role a \<noteq> Some ''librarian'' \<Longrightarrow>
   role (snd (menu_loop py_int a)) = role a \<and>
   (UpdateReturn i \<in> set (executed (db (snd (menu_loop py_int a)))) \<longrightarrow>
    UpdateReturn i \<in> set (executed (db a)))"
proof (induction py_int a rule: menu_loop.induct)
  case (1 py_int a)
  obtain x y where inp: "input Choose (show_menu a) = (x, y)"
    by (cases "input Choose (show_menu a)")
  from input_keeps [OF inp] show_menu_keeps [of a]
  have y: "role y = role a" "db y = db a"
    by simp_all
  from y "1.prems" have ry: "role y \<noteq> Some ''librarian''"
    by simp
  show ?case
  proof (cases x)
    case (Inl e)
    with inp y show ?thesis
      by (simp add: menu_loop.simps [of py_int a])
  next
    case (Inr b)
    let ?two = "b = ''2'' \<and> (role y = Some ''student'' \<or> role y = Some ''librarian'')"
    consider (one) "b = ''1''"
      | (two) "b \<noteq> ''1''" "?two"
      | (zero) "b \<noteq> ''1''" "\<not> ?two" "b = ''0''"
      | (other) "b \<noteq> ''1''" "\<not> ?two" "b \<noteq> ''0''"
      by blast
    then show ?thesis
    proof cases
      case one
      have eq: "menu_loop py_int a = menu_loop py_int (show_books y)"
        using inp Inr one by (simp add: menu_loop.simps [of py_int a])
      have r: "role (show_books y) \<noteq> Some ''librarian''"
        using ry by (simp add: show_books_eq)
      from "1.IH"(1) [OF inp [symmetric] Inr one r] y show ?thesis
        by (simp add: eq show_books_eq)
    next
      case two
      obtain xa ya where ab: "app_borrow_book py_int y = (xa, ya)"
        by (cases "app_borrow_book py_int y")
      from app_borrow_book_keeps [of py_int y i] ab
      have k: "role ya = role y"
        "UpdateReturn i \<in> set (executed (db ya)) \<longrightarrow> UpdateReturn i \<in> set (executed (db y))"
        by simp_all
      show ?thesis
      proof (cases xa)
        case (Inl e)
        have "menu_loop py_int a = (Inl e, ya)"
          using inp Inr two ab Inl by (simp add: menu_loop.simps [of py_int a])
        with k y show ?thesis by simp
      next
        case inr: (Inr ba)
        have eq: "menu_loop py_int a = menu_loop py_int ya"
          using inp Inr two ab inr by (simp add: menu_loop.simps [of py_int a])
        have r: "role ya \<noteq> Some ''librarian''"
          using k ry by simp
        from "1.IH"(2) [OF inp [symmetric] Inr two(1) two(2) ab [symmetric] inr r] k y
        show ?thesis
          by (simp add: eq)
      qed
    next
      case zero
      have "menu_loop py_int a = (Inr (), y)"
        using inp Inr zero ry by (simp add: menu_loop.simps [of py_int a])
      with y show ?thesis by simp
    next
      case other
      have n3: "\<not> (b = ''3'' \<and> role y = Some ''librarian'')"
        using ry by simp
      have eq: "menu_loop py_int a = menu_loop py_int (print InvalidChoice y)"
        using inp Inr other ry by (auto simp: menu_loop.simps [of py_int a])
      have r: "role (print InvalidChoice y) \<noteq> Some ''librarian''"
        using ry by (simp add: print_def)
      from "1.IH"(4) [OF inp [symmetric] Inr other(1) other(2) n3 other(3) r] y show ?thesis
        by (simp add: eq print_def)
    qed
  qed
qed

section \<open>The claims\<close>

text \<open>
  C1, as the code has it. For every book id and every username and return-date string
  without the character NUL, \<open>borrow_book\<close> changes exactly the rows whose id is the given
  one and whose \<open>borrowed_by\<close> is null: there it sets \<open>borrowed_by\<close> to the username,
  \<open>borrow_date\<close> to the current date and \<open>return_date\<close> to the given string, and it leaves
  every other row and the table \<open>roles\<close> as they were. It raises the one \<open>ValueError\<close> of
  line 41 exactly when no row matched, and returns normally exactly when one did; an id
  that no row has and an id whose rows are all borrowed give the same error. A username
  or return date that contains NUL makes the driver raise its own \<open>ValueError\<close> before
  the statement is sent: the store is as it was, whether a row would have matched or not.
\<close>

theorem borrow_book_conditional_update:
  "(\<not> has_nul u \<and> \<not> has_nul rd \<longrightarrow>
      length (lib (snd (borrow_book i (Some u) rd now d))) = length (lib d) \<and>
      (\<forall>n < length (lib d).
         lib (snd (borrow_book i (Some u) rd now d)) ! n =
           (if book_id (lib d ! n) = i \<and> borrowed_by (lib d ! n) = None
            then (lib d ! n)\<lparr>borrowed_by := Some u, borrow_date := Some (dt_date now),
                              return_date := Some rd\<rparr>
            else lib d ! n)) \<and>
      roles (snd (borrow_book i (Some u) rd now d)) = roles d \<and>
      (fst (borrow_book i (Some u) rd now d) = Inl (ValueError TakenOrMissing) \<longleftrightarrow>
         \<not> (\<exists>b\<in>set (lib d). book_id b = i \<and> borrowed_by b = None)) \<and>
      (fst (borrow_book i (Some u) rd now d) = Inr () \<longleftrightarrow>
         (\<exists>b\<in>set (lib d). book_id b = i \<and> borrowed_by b = None)) \<and>
      ((\<forall>b\<in>set (lib d). book_id b \<noteq> i) \<longrightarrow>
         fst (borrow_book i (Some u) rd now d) = Inl (ValueError TakenOrMissing)) \<and>
      ((\<forall>b\<in>set (lib d). book_id b = i \<longrightarrow> borrowed_by b \<noteq> None) \<longrightarrow>
         fst (borrow_book i (Some u) rd now d) = Inl (ValueError TakenOrMissing))) \<and>
   (has_nul u \<or> has_nul rd \<longrightarrow>
      borrow_book i (Some u) rd now d = (Inl (ValueError NulInString), d))"
proof (rule conjI; rule impI)
  assume "\<not> has_nul u \<and> \<not> has_nul rd"
  then have n: "\<not> opt_has_nul (Some u)" "\<not> has_nul rd"
    by (simp_all add: opt_has_nul_def)
  show "length (lib (snd (borrow_book i (Some u) rd now d))) = length (lib d) \<and>
      (\<forall>n < length (lib d).
         lib (snd (borrow_book i (Some u) rd now d)) ! n =
           (if book_id (lib d ! n) = i \<and> borrowed_by (lib d ! n) = None
            then (lib d ! n)\<lparr>borrowed_by := Some u, borrow_date := Some (dt_date now),
                              return_date := Some rd\<rparr>
            else lib d ! n)) \<and>
      roles (snd (borrow_book i (Some u) rd now d)) = roles d \<and>
      (fst (borrow_book i (Some u) rd now d) = Inl (ValueError TakenOrMissing) \<longleftrightarrow>
         \<not> (\<exists>b\<in>set (lib d). book_id b = i \<and> borrowed_by b = None)) \<and>
      (fst (borrow_book i (Some u) rd now d) = Inr () \<longleftrightarrow>
         (\<exists>b\<in>set (lib d). book_id b = i \<and> borrowed_by b = None)) \<and>
      ((\<forall>b\<in>set (lib d). book_id b \<noteq> i) \<longrightarrow>
         fst (borrow_book i (Some u) rd now d) = Inl (ValueError TakenOrMissing)) \<and>
      ((\<forall>b\<in>set (lib d). book_id b = i \<longrightarrow> borrowed_by b \<noteq> None) \<longrightarrow>
         fst (borrow_book i (Some u) rd now d) = Inl (ValueError TakenOrMissing))"
    by (simp add: lib_borrow_book [OF n] fst_borrow_book [OF n] roles_borrow_book borrowable_def)
next
  assume "has_nul u \<or> has_nul rd"
  then show "borrow_book i (Some u) rd now d = (Inl (ValueError NulInString), d)"
    by (simp add: borrow_book_nul opt_has_nul_def)
qed

theorem borrow_book_conditional_update_witness:
  "\<not> has_nul ''alice'' \<and> \<not> has_nul ''2025-01-01'' \<and>
   lib (snd (borrow_book 5 (Some ''alice'') ''2025-01-01'' noon store0)) =
     [book5\<lparr>borrowed_by := Some ''alice'', borrow_date := Some (Date 2024 12 15),
             return_date := Some ''2025-01-01''\<rparr>, book7] \<and>
   fst (borrow_book 5 (Some ''alice'') ''2025-01-01'' noon store0) = Inr () \<and>
   fst (borrow_book 7 (Some ''alice'') ''2025-01-01'' noon store0) = Inl (ValueError TakenOrMissing) \<and>
   fst (borrow_book 6 (Some ''alice'') ''2025-01-01'' noon store0) = Inl (ValueError TakenOrMissing) \<and>
   has_nul nul_date \<and>
   borrow_book 5 (Some ''alice'') nul_date noon store0 = (Inl (ValueError NulInString), store0)"
  using borrow_book_conditional_update [of "''alice''" "''2025-01-01''" 5 noon store0]
    borrow_book_conditional_update [of "''alice''" "''2025-01-01''" 7 noon store0]
    borrow_book_conditional_update [of "''alice''" "''2025-01-01''" 6 noon store0]
    borrow_book_conditional_update [of "''alice''" nul_date 5 noon store0]
  by (simp add: borrow_book_def borrowable_def Let_def store0_def book5_def book7_def noon_def
      has_nul_def opt_has_nul_def nul_date_def)

text \<open>
  The claim as written speaks of every username and return-date string. With a NUL in
  the return date and book 5 free, a row matches, yet the call raises, the error is not
  the one of line 41, and no row is updated.
\<close>

theorem borrow_book_nul_counterexample:
  "book_id (lib store0 ! 0) = 5 \<and> borrowed_by (lib store0 ! 0) = None \<and>
   fst (borrow_book 5 (Some ''alice'') nul_date noon store0) = Inl (ValueError NulInString) \<and>
   fst (borrow_book 5 (Some ''alice'') nul_date noon store0) \<noteq> Inr () \<and>
   fst (borrow_book 5 (Some ''alice'') nul_date noon store0) \<noteq> Inl (ValueError TakenOrMissing) \<and>
   lib (snd (borrow_book 5 (Some ''alice'') nul_date noon store0)) = lib store0"
  by (simp add: borrow_book_def has_nul_def opt_has_nul_def nul_date_def store0_def book5_def)


text \<open>
  C3. For every book id, \<open>return_book\<close> raises nothing, sets \<open>borrowed_by\<close>,
  \<open>borrow_date\<close> and \<open>return_date\<close> to null in the rows with that id and leaves every
  other row, and the table \<open>roles\<close>, as they were. Where the rows with that id are
  already all null, or no row has the id, the table is unchanged.
\<close>

theorem return_book_clears_id:
  "fst (return_book i d) = Inr () \<and>
   length (lib (snd (return_book i d))) = length (lib d) \<and>
   (\<forall>n < length (lib d).
      lib (snd (return_book i d)) ! n =
        (if book_id (lib d ! n) = i
         then (lib d ! n)\<lparr>borrowed_by := None, borrow_date := None, return_date := None\<rparr>
         else lib d ! n)) \<and>
   (\<forall>b\<in>set (lib (snd (return_book i d))). book_id b = i \<longrightarrow> all_null b) \<and>
   ((\<forall>b\<in>set (lib d). book_id b = i \<longrightarrow> all_null b) \<longrightarrow> lib (snd (return_book i d)) = lib d) \<and>
   ((\<forall>b\<in>set (lib d). book_id b \<noteq> i) \<longrightarrow> lib (snd (return_book i d)) = lib d) \<and>
   roles (snd (return_book i d)) = roles d"
proof -
  have cleared: "\<forall>b\<in>set (lib (snd (return_book i d))). book_id b = i \<longrightarrow> all_null b"
  proof (intro ballI impI)
    fix b'
    assume m: "b' \<in> set (lib (snd (return_book i d)))" and i: "book_id b' = i"
    from m [unfolded lib_return_book set_map] obtain b
      where b: "b' = (if book_id b = i
                      then b\<lparr>borrowed_by := None, borrow_date := None, return_date := None\<rparr>
                      else b)"
      by blast
    with i show "all_null b'"
      by (cases "book_id b = i") (simp_all add: all_null_def)
  qed
  have noop: "lib (snd (return_book i d)) = lib d"
    if h: "\<forall>b\<in>set (lib d). book_id b = i \<longrightarrow> all_null b"
  proof -
    have "(if book_id b = i
           then b\<lparr>borrowed_by := None, borrow_date := None, return_date := None\<rparr>
           else b) = b" if "b \<in> set (lib d)" for b
      using that h clear_all_null [of b] by (cases "book_id b = i") simp_all
    then show ?thesis
      unfolding lib_return_book by (rule map_idI)
  qed
  have absent: "lib (snd (return_book i d)) = lib d" if "\<forall>b\<in>set (lib d). book_id b \<noteq> i"
    using that noop by blast
  show ?thesis
  proof (intro conjI)
    show "fst (return_book i d) = Inr ()"
      by (rule fst_return_book)
    show "length (lib (snd (return_book i d))) = length (lib d)"
      by (simp add: lib_return_book)
    show "\<forall>n < length (lib d).
            lib (snd (return_book i d)) ! n =
              (if book_id (lib d ! n) = i
               then (lib d ! n)\<lparr>borrowed_by := None, borrow_date := None, return_date := None\<rparr>
               else lib d ! n)"
      by (simp add: lib_return_book)
    show "\<forall>b\<in>set (lib (snd (return_book i d))). book_id b = i \<longrightarrow> all_null b"
      by (rule cleared)
    show "(\<forall>b\<in>set (lib d). book_id b = i \<longrightarrow> all_null b) \<longrightarrow> lib (snd (return_book i d)) = lib d"
      using noop by blast
    show "(\<forall>b\<in>set (lib d). book_id b \<noteq> i) \<longrightarrow> lib (snd (return_book i d)) = lib d"
      using absent by blast
    show "roles (snd (return_book i d)) = roles d"
      by (rule roles_return_book)
  qed
qed

theorem return_book_clears_id_witness:
  "lib (snd (return_book 7 store0)) =
     [book5, book7\<lparr>borrowed_by := None, borrow_date := None, return_date := None\<rparr>] \<and>
   lib (snd (return_book 5 store0)) = lib store0 \<and>
   lib (snd (return_book 6 store0)) = lib store0 \<and>
   fst (return_book 6 store0) = Inr ()"
  using return_book_clears_id [of 7 store0] return_book_clears_id [of 5 store0]
    return_book_clears_id [of 6 store0]
  by (simp add: return_book_def store0_def book5_def book7_def all_null_def)

text \<open>
  C4, as the code has it. For every username and password without the character NUL,
  \<open>authenticate_user\<close> returns no role exactly when no row of \<open>roles\<close> has the given
  username and the given password, both compared as they are; a role it returns is the
  role of a row with that username and password, and where the rows with that username
  and password all carry one role, that role is returned. A username or password that
  contains NUL makes the driver raise \<open>ValueError\<close> before the query is sent: nothing is
  returned. In every case both tables are unchanged.
\<close>

theorem authenticate_user_exact:
  "(\<not> has_nul u \<and> \<not> has_nul p \<longrightarrow>
      (fst (authenticate_user u p d) = Inr None \<longleftrightarrow>
         \<not> (\<exists>r\<in>set (roles d). r_username r = u \<and> r_password r = p)) \<and>
      (\<forall>x. fst (authenticate_user u p d) = Inr (Some x) \<longrightarrow>
         (\<exists>r\<in>set (roles d). r_username r = u \<and> r_password r = p \<and> r_role r = x)) \<and>
      (\<forall>x. (\<exists>r\<in>set (roles d). r_username r = u \<and> r_password r = p) \<and>
           (\<forall>r\<in>set (roles d). r_username r = u \<and> r_password r = p \<longrightarrow> r_role r = x) \<longrightarrow>
           fst (authenticate_user u p d) = Inr (Some x)) \<and>
      (\<forall>e. fst (authenticate_user u p d) \<noteq> Inl e)) \<and>
   (has_nul u \<or> has_nul p \<longrightarrow>
      authenticate_user u p d = (Inl (ValueError NulInString), d)) \<and>
   lib (snd (authenticate_user u p d)) = lib d \<and>
   roles (snd (authenticate_user u p d)) = roles d"
proof -
  let ?P = "\<lambda>r. r_username r = u \<and> r_password r = p"
  have clean: "(fst (authenticate_user u p d) = Inr None \<longleftrightarrow>
         \<not> (\<exists>r\<in>set (roles d). r_username r = u \<and> r_password r = p)) \<and>
      (\<forall>x. fst (authenticate_user u p d) = Inr (Some x) \<longrightarrow>
         (\<exists>r\<in>set (roles d). r_username r = u \<and> r_password r = p \<and> r_role r = x)) \<and>
      (\<forall>x. (\<exists>r\<in>set (roles d). r_username r = u \<and> r_password r = p) \<and>
           (\<forall>r\<in>set (roles d). r_username r = u \<and> r_password r = p \<longrightarrow> r_role r = x) \<longrightarrow>
           fst (authenticate_user u p d) = Inr (Some x)) \<and>
      (\<forall>e. fst (authenticate_user u p d) \<noteq> Inl e)"
    if n: "\<not> has_nul u \<and> \<not> has_nul p"
  proof -
    from n have f: "fst (authenticate_user u p d) = Inr (map_option r_role (find ?P (roles d)))"
      by (simp add: authenticate_user_find)
    have none: "fst (authenticate_user u p d) = Inr None \<longleftrightarrow> \<not> (\<exists>r\<in>set (roles d). ?P r)"
      by (auto simp: f find_None_iff)
    have some: "\<exists>r\<in>set (roles d). r_username r = u \<and> r_password r = p \<and> r_role r = x"
      if "fst (authenticate_user u p d) = Inr (Some x)" for x
    proof -
      from that obtain r where "find ?P (roles d) = Some r" and "r_role r = x"
        by (auto simp: f)
      then show ?thesis
        by (auto simp: find_Some_iff)
    qed
    have unique: "fst (authenticate_user u p d) = Inr (Some x)"
      if "\<exists>r\<in>set (roles d). ?P r" and "\<forall>r\<in>set (roles d). ?P r \<longrightarrow> r_role r = x" for x
    proof -
      from that(1) none obtain y where y: "fst (authenticate_user u p d) = Inr (Some y)"
        by (cases "find ?P (roles d)") (auto simp: f)
      from some [OF y] that(2) have "y = x" by auto
      with y show ?thesis by simp
    qed
    have noexn: "fst (authenticate_user u p d) \<noteq> Inl e" for e
      by (simp add: f)
    show ?thesis
    proof (intro conjI allI impI)
      show "fst (authenticate_user u p d) = Inr None \<longleftrightarrow>
          \<not> (\<exists>r\<in>set (roles d). r_username r = u \<and> r_password r = p)"
        by (rule none)
      show "\<exists>r\<in>set (roles d). r_username r = u \<and> r_password r = p \<and> r_role r = x"
        if "fst (authenticate_user u p d) = Inr (Some x)" for x
        using that by (rule some)
      show "fst (authenticate_user u p d) = Inr (Some x)"
        if "(\<exists>r\<in>set (roles d). ?P r) \<and> (\<forall>r\<in>set (roles d). ?P r \<longrightarrow> r_role r = x)" for x
        using that unique by blast
      show "fst (authenticate_user u p d) \<noteq> Inl e" for e
        by (rule noexn)
    qed
  qed
  have nul: "authenticate_user u p d = (Inl (ValueError NulInString), d)"
    if "has_nul u \<or> has_nul p"
    using that by (rule authenticate_user_nul)
  have frame: "lib (snd (authenticate_user u p d)) = lib d"
    "roles (snd (authenticate_user u p d)) = roles d"
    using authenticate_user_frame by blast+
  show ?thesis
    by (rule conjI, rule impI, erule clean, rule conjI, rule impI, erule nul,
        rule conjI, rule frame(1), rule frame(2))
qed

theorem authenticate_user_exact_witness:
  "\<not> has_nul ''alice'' \<and> \<not> has_nul ''wonder'' \<and>
   fst (authenticate_user ''alice'' ''wonder'' store0) = Inr (Some ''student'') \<and>
   fst (authenticate_user ''bob'' ''builder'' store0) = Inr (Some ''librarian'') \<and>
   fst (authenticate_user ''alice'' ''Wonder'' store0) = Inr None \<and>
   fst (authenticate_user ''alice'' ''wonder '' store0) = Inr None \<and>
   fst (authenticate_user ''bob'' ''wonder'' store0) = Inr None \<and>
   has_nul nul_password \<and>
   authenticate_user ''alice'' nul_password store0 = (Inl (ValueError NulInString), store0)"
  using authenticate_user_exact [of "''alice''" "''wonder''" store0]
    authenticate_user_exact [of "''bob''" "''builder''" store0]
    authenticate_user_exact [of "''alice''" "''Wonder''" store0]
    authenticate_user_exact [of "''alice''" "''wonder ''" store0]
    authenticate_user_exact [of "''bob''" "''wonder''" store0]
    authenticate_user_exact [of "''alice''" nul_password store0]
  by (simp add: authenticate_user_def Let_def store0_def has_nul_def nul_password_def)

text \<open>
  The claim as written speaks of every username and password. A password with a NUL in
  it matches no row, yet the call does not return absence: it raises.
\<close>

theorem authenticate_user_nul_counterexample:
  "list_all (\<lambda>r. r_password r \<noteq> nul_password) (roles store0) \<and>
   fst (authenticate_user ''alice'' nul_password store0) = Inl (ValueError NulInString) \<and>
   fst (authenticate_user ''alice'' nul_password store0) \<noteq> Inr None"
  by (simp add: authenticate_user_def has_nul_def nul_password_def store0_def)


text \<open>
  C2. Over every sequence of \<open>borrow_book\<close> and \<open>return_book\<close> calls, a table whose
  rows all have \<open>borrowed_by\<close>, \<open>borrow_date\<close> and \<open>return_date\<close> null together keeps
  that property. One call leaves a row as it was, or sets all three columns of it, or
  clears all three: it never writes a proper subset of them, and it writes no other
  column.
\<close>

theorem triple_invariant_preserved:
  "((\<forall>b\<in>set (lib d). triple_inv b) \<longrightarrow>
      (\<forall>b\<in>set (lib (apply_operations xs d)). triple_inv b)) \<and>
   length (lib (apply_operation now x d)) = length (lib d) \<and>
   (\<forall>n < length (lib d).
      lib (apply_operation now x d) ! n = lib d ! n \<or>
      (\<exists>u t rd. lib (apply_operation now x d) ! n =
         (lib d ! n)\<lparr>borrowed_by := Some u, borrow_date := Some t, return_date := Some rd\<rparr>) \<or>
      lib (apply_operation now x d) ! n =
         (lib d ! n)\<lparr>borrowed_by := None, borrow_date := None, return_date := None\<rparr>)"
proof (intro conjI impI allI)
  show "\<forall>b\<in>set (lib (apply_operations xs d)). triple_inv b" if "\<forall>b\<in>set (lib d). triple_inv b"
    using that by (rule triple_inv_apply_operations)
  show "length (lib (apply_operation now x d)) = length (lib d)"
    by (rule length_lib_apply_operation)
  show "lib (apply_operation now x d) ! n = lib d ! n \<or>
      (\<exists>u t rd. lib (apply_operation now x d) ! n =
         (lib d ! n)\<lparr>borrowed_by := Some u, borrow_date := Some t, return_date := Some rd\<rparr>) \<or>
      lib (apply_operation now x d) ! n =
         (lib d ! n)\<lparr>borrowed_by := None, borrow_date := None, return_date := None\<rparr>"
    if "n < length (lib d)" for n
    using that by (rule apply_operation_row)
qed

theorem triple_invariant_preserved_witness:
  "list_all triple_inv (lib store0) \<and>
   lib (apply_operations ops0 store0) =
     [book5\<lparr>borrowed_by := Some ''alice'', borrow_date := Some (Date 2024 12 15),
             return_date := Some ''2025-01-01''\<rparr>,
      book7\<lparr>borrowed_by := None, borrow_date := None, return_date := None\<rparr>] \<and>
   list_all triple_inv (lib (apply_operations ops0 store0))"
proof -
  have inv: "\<forall>b\<in>set (lib store0). triple_inv b"
    by (simp add: store0_def book5_def book7_def triple_inv_def)
  have run: "lib (apply_operations ops0 store0) =
     [book5\<lparr>borrowed_by := Some ''alice'', borrow_date := Some (Date 2024 12 15),
             return_date := Some ''2025-01-01''\<rparr>,
      book7\<lparr>borrowed_by := None, borrow_date := None, return_date := None\<rparr>]"
    by (simp add: ops0_def store0_def book5_def book7_def noon_def borrow_book_def
        return_book_def borrowable_def Let_def has_nul_def opt_has_nul_def)
  from triple_invariant_preserved [of store0 ops0 noon "Return 7"] inv
  have "\<forall>b\<in>set (lib (apply_operations ops0 store0)). triple_inv b"
    by blast
  with inv run show ?thesis
    unfolding list_all_iff by blast
qed

text \<open>
  C10. \<open>return_book\<close> is idempotent: a second call with the same id leaves the tables as
  the first call left them, and raises nothing either time. \<open>borrow_book\<close> followed by
  \<open>return_book\<close> of the same id clears the three columns of the rows with that id and
  changes no other row; for an available row (all three null), a username and a return
  date without NUL, the borrow succeeds, sets all three, and the return gives back the
  row as it was.
\<close>

theorem return_book_idempotent:
  "lib (snd (return_book i (snd (return_book i d)))) = lib (snd (return_book i d)) \<and>
   roles (snd (return_book i (snd (return_book i d)))) = roles (snd (return_book i d)) \<and>
   fst (return_book i (snd (return_book i d))) = fst (return_book i d) \<and>
   length (lib (snd (return_book i (snd (borrow_book i (Some u) rd now d))))) = length (lib d) \<and>
   (\<forall>n < length (lib d).
      lib (snd (return_book i (snd (borrow_book i (Some u) rd now d)))) ! n =
        (if book_id (lib d ! n) = i
         then (lib d ! n)\<lparr>borrowed_by := None, borrow_date := None, return_date := None\<rparr>
         else lib d ! n)) \<and>
   (\<forall>n < length (lib d).
      book_id (lib d ! n) = i \<and> all_null (lib d ! n) \<and> \<not> has_nul u \<and> \<not> has_nul rd \<longrightarrow>
      fst (borrow_book i (Some u) rd now d) = Inr () \<and>
      all_set (lib (snd (borrow_book i (Some u) rd now d)) ! n) \<and>
      lib (snd (return_book i (snd (borrow_book i (Some u) rd now d)))) ! n = lib d ! n)"
proof (intro conjI allI impI)
  show "lib (snd (return_book i (snd (return_book i d)))) = lib (snd (return_book i d))"
    by (rule lib_return_twice)
  show "roles (snd (return_book i (snd (return_book i d)))) = roles (snd (return_book i d))"
    by (simp add: roles_return_book)
  show "fst (return_book i (snd (return_book i d))) = fst (return_book i d)"
    by (simp add: fst_return_book)
  show "length (lib (snd (return_book i (snd (borrow_book i (Some u) rd now d))))) = length (lib d)"
    by (simp add: lib_borrow_then_return)
  show "lib (snd (return_book i (snd (borrow_book i (Some u) rd now d)))) ! n =
        (if book_id (lib d ! n) = i
         then (lib d ! n)\<lparr>borrowed_by := None, borrow_date := None, return_date := None\<rparr>
         else lib d ! n)" if "n < length (lib d)" for n
    using that by (simp add: lib_borrow_then_return)
next
  fix n
  assume n: "n < length (lib d)"
    and b: "book_id (lib d ! n) = i \<and> all_null (lib d ! n) \<and> \<not> has_nul u \<and> \<not> has_nul rd"
  then have m: "borrowable i (lib d ! n)"
    by (simp add: borrowable_def all_null_def)
  from b have c: "\<not> opt_has_nul (Some u)" "\<not> has_nul rd"
    by (simp_all add: opt_has_nul_def)
  from n m have "\<exists>b\<in>set (lib d). borrowable i b"
    using nth_mem by blast
  then show "fst (borrow_book i (Some u) rd now d) = Inr ()"
    by (simp add: fst_borrow_book [OF c])
  from n m show "all_set (lib (snd (borrow_book i (Some u) rd now d)) ! n)"
    by (simp add: lib_borrow_book [OF c] all_set_def)
  from n b show "lib (snd (return_book i (snd (borrow_book i (Some u) rd now d)))) ! n = lib d ! n"
    by (simp add: lib_borrow_then_return clear_all_null)
qed

theorem return_book_idempotent_witness:
  "lib (snd (return_book 7 (snd (return_book 7 store0)))) =
     [book5, book7\<lparr>borrowed_by := None, borrow_date := None, return_date := None\<rparr>] \<and>
   lib (snd (return_book 7 store0)) =
     [book5, book7\<lparr>borrowed_by := None, borrow_date := None, return_date := None\<rparr>] \<and>
   all_null (lib store0 ! 0) \<and>
   lib (snd (borrow_book 5 (Some ''alice'') ''2025-01-01'' noon store0)) ! 0 =
     book5\<lparr>borrowed_by := Some ''alice'', borrow_date := Some (Date 2024 12 15),
            return_date := Some ''2025-01-01''\<rparr> \<and>
   lib (snd (return_book 5 (snd (borrow_book 5 (Some ''alice'') ''2025-01-01'' noon store0)))) ! 0 =
     book5"
  using return_book_idempotent [of 7 store0 "''alice''" "''2025-01-01''" noon]
    return_book_idempotent [of 5 store0 "''alice''" "''2025-01-01''" noon]
  by (simp add: store0_def book5_def book7_def noon_def all_null_def return_book_def
      borrow_book_def borrowable_def Let_def has_nul_def opt_has_nul_def)

text \<open>
  C5, as the code has it. With \<open>id\<close> the primary key of \<open>lib\<close> (no two rows share an id),
  \<open>borrow_book\<close> on the id of a row whose \<open>borrowed_by\<close> is not null raises a
  \<open>ValueError\<close> and leaves both tables as they were: the error of line 41 when the
  username and the return date have no NUL in them, the driver's error otherwise.
  \<open>LibraryApp.borrow_book\<close> then prints the message of that error and returns normally,
  with the tables and the log file unchanged. With or without the key: after a
  successful borrow of an id, a second borrow of that id raises in the same way and
  leaves the table as the first borrow left it.
\<close>

theorem borrowed_book_unavailable:
  assumes "distinct (map book_id (lib (db a)))" and "b \<in> set (lib (db a))"
    and "borrowed_by b \<noteq> None"
  shows "fst (borrow_book (book_id b) u rd now (db a)) =
       Inl (ValueError (if opt_has_nul u \<or> has_nul rd then NulInString else TakenOrMissing)) \<and>
     lib (snd (borrow_book (book_id b) u rd now (db a))) = lib (db a) \<and>
     roles (snd (borrow_book (book_id b) u rd now (db a))) = roles (db a) \<and>
     ((role a = Some ''student'' \<or> role a = Some ''librarian'') \<and>
      stdin a = s # rd # rest \<and> py_int s = Some (book_id b) \<longrightarrow>
        fst (app_borrow_book py_int a) = Inr () \<and>
        lib (db (snd (app_borrow_book py_int a))) = lib (db a) \<and>
        roles (db (snd (app_borrow_book py_int a))) = roles (db a) \<and>
        log_file (snd (app_borrow_book py_int a)) = log_file a \<and>
        console (snd (app_borrow_book py_int a)) =
          console a @ BookListHeader # map book_line (lib (db a))
          @ [EnterBorrowId, EnterReturnDate,
             if opt_has_nul (username a) \<or> has_nul rd then NulInString else TakenOrMissing] \<and>
        stdin (snd (app_borrow_book py_int a)) = rest \<and>
        role (snd (app_borrow_book py_int a)) = role a \<and>
        username (snd (app_borrow_book py_int a)) = username a) \<and>
     (fst (borrow_book i (Some u1) rd1 now1 d) = Inr () \<longrightarrow>
        fst (borrow_book i u2 rd2 now2 (snd (borrow_book i (Some u1) rd1 now1 d))) =
          Inl (ValueError (if opt_has_nul u2 \<or> has_nul rd2 then NulInString
                           else TakenOrMissing)) \<and>
        lib (snd (borrow_book i u2 rd2 now2 (snd (borrow_book i (Some u1) rd1 now1 d)))) =
          lib (snd (borrow_book i (Some u1) rd1 now1 d)))"
proof -
  have nb: "\<not> (\<exists>b'\<in>set (lib (db a)). borrowable (book_id b) b')"
    using assms by (rule borrowed_not_borrowable)
  have 1: "fst (borrow_book (book_id b) u rd now (db a)) =
       Inl (ValueError (if opt_has_nul u \<or> has_nul rd then NulInString else TakenOrMissing))"
    using nb by (rule borrow_book_raises)
  have 2: "lib (snd (borrow_book (book_id b) u rd now (db a))) = lib (db a)"
    using nb by (rule borrow_book_unmatched)
  have 3: "roles (snd (borrow_book (book_id b) u rd now (db a))) = roles (db a)"
    by (rule roles_borrow_book)
  have 4: "(role a = Some ''student'' \<or> role a = Some ''librarian'') \<and>
      stdin a = s # rd # rest \<and> py_int s = Some (book_id b) \<longrightarrow>
        fst (app_borrow_book py_int a) = Inr () \<and>
        lib (db (snd (app_borrow_book py_int a))) = lib (db a) \<and>
        roles (db (snd (app_borrow_book py_int a))) = roles (db a) \<and>
        log_file (snd (app_borrow_book py_int a)) = log_file a \<and>
        console (snd (app_borrow_book py_int a)) =
          console a @ BookListHeader # map book_line (lib (db a))
          @ [EnterBorrowId, EnterReturnDate,
             if opt_has_nul (username a) \<or> has_nul rd then NulInString else TakenOrMissing] \<and>
        stdin (snd (app_borrow_book py_int a)) = rest \<and>
        role (snd (app_borrow_book py_int a)) = role a \<and>
        username (snd (app_borrow_book py_int a)) = username a"
  proof (rule impI)
    assume h: "(role a = Some ''student'' \<or> role a = Some ''librarian'') \<and>
      stdin a = s # rd # rest \<and> py_int s = Some (book_id b)"
    show "fst (app_borrow_book py_int a) = Inr () \<and>
        lib (db (snd (app_borrow_book py_int a))) = lib (db a) \<and>
        roles (db (snd (app_borrow_book py_int a))) = roles (db a) \<and>
        log_file (snd (app_borrow_book py_int a)) = log_file a \<and>
        console (snd (app_borrow_book py_int a)) =
          console a @ BookListHeader # map book_line (lib (db a))
          @ [EnterBorrowId, EnterReturnDate,
             if opt_has_nul (username a) \<or> has_nul rd then NulInString else TakenOrMissing] \<and>
        stdin (snd (app_borrow_book py_int a)) = rest \<and>
        role (snd (app_borrow_book py_int a)) = role a \<and>
        username (snd (app_borrow_book py_int a)) = username a"
      using app_borrow_book_unavailable [of a s rd rest py_int "book_id b"] h nb by blast
  qed
  have 5: "fst (borrow_book i (Some u1) rd1 now1 d) = Inr () \<longrightarrow>
        fst (borrow_book i u2 rd2 now2 (snd (borrow_book i (Some u1) rd1 now1 d))) =
          Inl (ValueError (if opt_has_nul u2 \<or> has_nul rd2 then NulInString
                           else TakenOrMissing)) \<and>
        lib (snd (borrow_book i u2 rd2 now2 (snd (borrow_book i (Some u1) rd1 now1 d)))) =
          lib (snd (borrow_book i (Some u1) rd1 now1 d))"
  proof (rule impI)
    assume "fst (borrow_book i (Some u1) rd1 now1 d) = Inr ()"
    then have n: "\<not> (\<exists>b\<in>set (lib (snd (borrow_book i (Some u1) rd1 now1 d))). borrowable i b)"
      by (rule not_borrowable_after_borrow)
    show "fst (borrow_book i u2 rd2 now2 (snd (borrow_book i (Some u1) rd1 now1 d))) =
          Inl (ValueError (if opt_has_nul u2 \<or> has_nul rd2 then NulInString
                           else TakenOrMissing)) \<and>
        lib (snd (borrow_book i u2 rd2 now2 (snd (borrow_book i (Some u1) rd1 now1 d)))) =
          lib (snd (borrow_book i (Some u1) rd1 now1 d))"
      using borrow_book_raises [OF n] borrow_book_unmatched [OF n] by blast
  qed
  show ?thesis
    by (rule conjI [OF 1 conjI [OF 2 conjI [OF 3 conjI [OF 4 5]]]])
qed

theorem borrowed_book_unavailable_witness:
  "fst (borrow_book 7 (Some ''alice'') ''2025-01-01'' noon store0) = Inl (ValueError TakenOrMissing) \<and>
   lib (snd (borrow_book 7 (Some ''alice'') ''2025-01-01'' noon store0)) = [book5, book7] \<and>
   fst (app_borrow_book digits
         (session (Some ''student'') (Some ''alice'') [Logger] [''7'', ''2025-01-01''])) = Inr () \<and>
   lib (db (snd (app_borrow_book digits
         (session (Some ''student'') (Some ''alice'') [Logger] [''7'', ''2025-01-01''])))) =
     [book5, book7] \<and>
   log_file (snd (app_borrow_book digits
         (session (Some ''student'') (Some ''alice'') [Logger] [''7'', ''2025-01-01'']))) = [] \<and>
   console (snd (app_borrow_book digits
         (session (Some ''student'') (Some ''alice'') [Logger] [''7'', ''2025-01-01'']))) =
     [BookListHeader, BookLine 5 ''Dune'' ''Herbert'' Available,
      BookLine 7 ''Emma'' ''Austen'' (Issued ''bob'' (Some ''2024-12-31'')),
      EnterBorrowId, EnterReturnDate, TakenOrMissing] \<and>
   fst (borrow_book 5 (Some ''alice'') ''2025-01-01'' noon store0) = Inr () \<and>
   fst (borrow_book 5 (Some ''carol'') ''2025-02-01'' noon
         (snd (borrow_book 5 (Some ''alice'') ''2025-01-01'' noon store0))) =
     Inl (ValueError TakenOrMissing) \<and>
   lib (snd (borrow_book 5 (Some ''carol'') ''2025-02-01'' noon
         (snd (borrow_book 5 (Some ''alice'') ''2025-01-01'' noon store0)))) =
     [book5\<lparr>borrowed_by := Some ''alice'', borrow_date := Some (Date 2024 12 15),
             return_date := Some ''2025-01-01''\<rparr>, book7]"
proof -
  let ?a = "session (Some ''student'') (Some ''alice'') [Logger] [''7'', ''2025-01-01'']"
  have d: "distinct (map book_id (lib (db ?a)))"
    by (simp add: session_def store0_def book5_def book7_def)
  have m: "book7 \<in> set (lib (db ?a))"
    by (simp add: session_def store0_def)
  have n: "borrowed_by book7 \<noteq> None"
    by (simp add: book7_def)
  have g: "(role ?a = Some ''student'' \<or> role ?a = Some ''librarian'') \<and>
      stdin ?a = ''7'' # ''2025-01-01'' # [] \<and> digits ''7'' = Some (book_id book7)"
    by (simp add: session_def digits_def book7_def)
  have s: "fst (borrow_book 5 (Some ''alice'') ''2025-01-01'' noon store0) = Inr ()"
    by (simp add: borrow_book_def borrowable_def Let_def store0_def book5_def book7_def
        has_nul_def opt_has_nul_def)
  have l: "lib (snd (borrow_book 5 (Some ''alice'') ''2025-01-01'' noon store0)) =
     [book5\<lparr>borrowed_by := Some ''alice'', borrow_date := Some (Date 2024 12 15),
             return_date := Some ''2025-01-01''\<rparr>, book7]"
    by (simp add: borrow_book_def borrowable_def Let_def store0_def book5_def book7_def noon_def
        has_nul_def opt_has_nul_def)
  have b7: "book_id book7 = 7" by (simp add: book7_def)
  have db: "db ?a = store0" "log_file ?a = []" "console ?a = []" "username ?a = Some ''alice''"
    by (simp_all add: session_def)
  have ls: "lib store0 = [book5, book7]" by (simp add: store0_def)
  have nn: "\<not> (opt_has_nul (Some ''alice'') \<or> has_nul ''2025-01-01'')"
    "\<not> (opt_has_nul (Some ''carol'') \<or> has_nul ''2025-02-01'')"
    by (simp_all add: has_nul_def opt_has_nul_def)
  have bl: "map book_line [book5, book7] =
      [BookLine 5 ''Dune'' ''Herbert'' Available,
       BookLine 7 ''Emma'' ''Austen'' (Issued ''bob'' (Some ''2024-12-31''))]"
    by (simp add: book_line_def status_of_def book5_def book7_def)
  from borrowed_book_unavailable [OF d m n, of "Some ''alice''" "''2025-01-01''" noon
      "''7''" "[]" digits 5 "''alice''" "''2025-01-01''" noon store0 "Some ''carol''"
      "''2025-02-01''" noon] g s
  show ?thesis
    unfolding b7 db l ls bl using nn by simp
qed

text \<open>
  The claim as written speaks of every such call. With a NUL in the return date, the
  borrow of the borrowed book 7 still fails and changes nothing, but the error is the
  driver's, and its message, not the one of line 41, is what the handler prints.
\<close>

theorem borrowed_book_nul_counterexample:
  "borrowed_by (lib store0 ! 1) = Some ''bob'' \<and> book_id (lib store0 ! 1) = 7 \<and>
   fst (borrow_book 7 (Some ''alice'') nul_date noon store0) = Inl (ValueError NulInString) \<and>
   fst (borrow_book 7 (Some ''alice'') nul_date noon store0) \<noteq> Inl (ValueError TakenOrMissing) \<and>
   console (snd (app_borrow_book digits
       (session (Some ''student'') (Some ''alice'') [Logger] [''7'', nul_date]))) =
     [BookListHeader, BookLine 5 ''Dune'' ''Herbert'' Available,
      BookLine 7 ''Emma'' ''Austen'' (Issued ''bob'' (Some ''2024-12-31'')),
      EnterBorrowId, EnterReturnDate, NulInString]"
  by (simp add: app_borrow_book_def show_books_def fetch_books_def input_def print_def
      borrow_try_def borrow_book_def Let_def session_def store0_def book5_def book7_def
      digits_def status_of_def has_nul_def opt_has_nul_def nul_date_def)

text \<open>
  C8, as the code has it. When \<open>authenticate_user\<close> returns no role for the username and
  password typed, \<open>run\<close> ends in \<open>login\<close>: it prints the two prompts and the failure
  message, raises \<open>SystemExit\<close>, reads no further line and prints no menu; the tables
  are unchanged and the one statement executed is the role lookup. When the username or
  the password contains NUL, the lookup raises the driver's \<open>ValueError\<close>, which
  \<open>login\<close> does not catch: \<open>run\<close> ends there as well, with no retry and no menu, but
  without the failure message and without \<open>exit()\<close>.
\<close>

theorem login_failure_exits:
  assumes "stdin a = u # p # rest"
  shows "(fst (authenticate_user u p (db a)) = Inr None \<longrightarrow>
       run py_int a = login a \<and>
       login a =
         (Inl SystemExit,
          a\<lparr>db := snd (authenticate_user u p (db a)), role := None, username := Some u,
            stdin := rest, console := console a @ [EnterLogin, EnterPassword, BadLogin]\<rparr>) \<and>
       lib (db (snd (run py_int a))) = lib (db a) \<and>
       roles (db (snd (run py_int a))) = roles (db a) \<and>
       executed (db (snd (run py_int a))) = executed (db a) @ [SelectRole u p]) \<and>
     (has_nul u \<or> has_nul p \<longrightarrow>
       run py_int a = login a \<and>
       login a =
         (Inl (ValueError NulInString),
          a\<lparr>username := Some u, stdin := rest,
            console := console a @ [EnterLogin, EnterPassword]\<rparr>))"
proof (intro conjI impI)
  assume n: "fst (authenticate_user u p (db a)) = Inr None"
  then have nn: "\<not> (has_nul u \<or> has_nul p)"
    using authenticate_user_nul [of u p "db a"] by auto
  obtain d' where au: "authenticate_user u p (db a) = (Inr None, d')"
    using n by (cases "authenticate_user u p (db a)") simp
  then show l: "login a =
         (Inl SystemExit,
          a\<lparr>db := snd (authenticate_user u p (db a)), role := None, username := Some u,
            stdin := rest, console := console a @ [EnterLogin, EnterPassword, BadLogin]\<rparr>)"
    by (simp add: login_eq [OF assms] truthy_def)
  then show r: "run py_int a = login a"
    by (simp add: run_def)
  show "lib (db (snd (run py_int a))) = lib (db a)"
    using authenticate_user_frame [of u p "db a"] by (simp add: r l)
  show "roles (db (snd (run py_int a))) = roles (db a)"
    using authenticate_user_frame [of u p "db a"] by (simp add: r l)
  show "executed (db (snd (run py_int a))) = executed (db a) @ [SelectRole u p]"
    using nn by (simp add: r l executed_authenticate_user)
next
  assume "has_nul u \<or> has_nul p"
  then have "authenticate_user u p (db a) = (Inl (ValueError NulInString), db a)"
    by (rule authenticate_user_nul)
  then show l: "login a =
         (Inl (ValueError NulInString),
          a\<lparr>username := Some u, stdin := rest,
            console := console a @ [EnterLogin, EnterPassword]\<rparr>)"
    by (simp add: login_eq [OF assms])
  then show "run py_int a = login a"
    by (simp add: run_def)
qed

theorem login_failure_exits_witness:
  "fst (authenticate_user ''alice'' ''guess'' store0) = Inr None \<and>
   fst (run digits (session None None [Logger] [''alice'', ''guess'', ''2'', ''5''])) = Inl SystemExit \<and>
   console (snd (run digits (session None None [Logger] [''alice'', ''guess'', ''2'', ''5''])))
     = [EnterLogin, EnterPassword, BadLogin] \<and>
   stdin (snd (run digits (session None None [Logger] [''alice'', ''guess'', ''2'', ''5''])))
     = [''2'', ''5''] \<and>
   lib (db (snd (run digits (session None None [Logger] [''alice'', ''guess'', ''2'', ''5''])))) =
     [book5, book7] \<and>
   has_nul nul_password \<and>
   fst (run digits (session None None [Logger] [''alice'', nul_password, ''2'', ''5''])) =
     Inl (ValueError NulInString) \<and>
   stdin (snd (run digits (session None None [Logger] [''alice'', nul_password, ''2'', ''5''])))
     = [''2'', ''5'']"
proof -
  let ?a = "session None None [Logger] [''alice'', ''guess'', ''2'', ''5'']"
  let ?b = "session None None [Logger] [''alice'', nul_password, ''2'', ''5'']"
  have s: "stdin ?a = ''alice'' # ''guess'' # [''2'', ''5'']"
    by (simp add: session_def)
  have t: "stdin ?b = ''alice'' # nul_password # [''2'', ''5'']"
    by (simp add: session_def)
  have n: "fst (authenticate_user ''alice'' ''guess'' (db ?a)) = Inr None"
    by (simp add: session_def store0_def authenticate_user_def Let_def has_nul_def)
  have z: "has_nul ''alice'' \<or> has_nul nul_password"
    by (simp add: has_nul_def nul_password_def)
  from login_failure_exits [OF s, of digits] n
  have 0: "run digits ?a = login ?a"
    and 1: "login ?a =
         (Inl SystemExit,
          ?a\<lparr>db := snd (authenticate_user ''alice'' ''guess'' (db ?a)), role := None,
             username := Some ''alice'', stdin := [''2'', ''5''],
             console := console ?a @ [EnterLogin, EnterPassword, BadLogin]\<rparr>)"
    and 2: "lib (db (snd (run digits ?a))) = lib (db ?a)"
    by blast+
  from login_failure_exits [OF t, of digits] z
  have 3: "run digits ?b = login ?b"
    and 6: "login ?b =
         (Inl (ValueError NulInString),
          ?b\<lparr>username := Some ''alice'', stdin := [''2'', ''5''],
             console := console ?b @ [EnterLogin, EnterPassword]\<rparr>)"
    by blast+
  have 4: "fst (authenticate_user ''alice'' ''guess'' store0) = Inr None"
    using n by (simp add: session_def)
  have 5: "has_nul nul_password"
    by (simp add: has_nul_def nul_password_def)
  show ?thesis
    unfolding 2 unfolding 0 3 unfolding 1 6 using 4 5
    by (simp add: session_def store0_def)
qed

text \<open>
  The claim as written speaks of every pair that does not authenticate. A password with
  a NUL in it matches no row of \<open>roles\<close>, yet the failure message is never printed and
  the program ends with the driver's \<open>ValueError\<close>, not through \<open>exit()\<close>.
\<close>

theorem login_nul_counterexample:
  "list_all (\<lambda>r. r_password r \<noteq> nul_password) (roles store0) \<and>
   fst (run digits (session None None [Logger] [''alice'', nul_password])) =
     Inl (ValueError NulInString) \<and>
   fst (run digits (session None None [Logger] [''alice'', nul_password])) \<noteq> Inl SystemExit \<and>
   console (snd (run digits (session None None [Logger] [''alice'', nul_password]))) =
     [EnterLogin, EnterPassword]"
  by (simp add: run_def login_def input_def print_def authenticate_user_def has_nul_def
      nul_password_def session_def store0_def)

text \<open>
  C9, as the code has it. \<open>Database.return_book\<close> raises nothing, whatever the id and
  the store, and for a librarian who types an integer the UPDATE runs and the success
  message of line 140 is printed, for every id. But the handler of line 142 is not
  dead code: the \<open>try\<close> also holds \<open>notify_observers\<close>, and the body raises a
  \<open>ValueError\<close> exactly when the first observer is a \<open>Logger\<close>, the log file can be
  opened and its encoding cannot encode the line, which makes the write of line 76
  raise \<open>UnicodeEncodeError\<close>. The handler then prints that error after the success
  message. Where the encoding can take the line, the handler is never entered.
\<close>

theorem return_handler_only_for_logger:
  "fst (return_book i d) = Inr () \<and>
   ((\<exists>m. fst (return_try i a) = Inl (ValueError m)) \<longleftrightarrow>
      log_openable a \<and> \<not> log_encodable a (BookReturned i) \<and>
      (\<exists>later. observers a = Logger # later)) \<and>
   (\<forall>m. fst (return_try i a) = Inl (ValueError m) \<longrightarrow> m = CannotEncode) \<and>
   (role a = Some ''librarian'' \<and> stdin a = s # rest \<and> py_int s = Some i \<longrightarrow>
      console (snd (app_return_book py_int a)) =
        console a @ BookListHeader # map book_line (lib (db a)) @ [EnterReturnId, ReturnedOk]
        @ (if log_openable a \<and> \<not> log_encodable a (BookReturned i) \<and>
              (\<exists>later. observers a = Logger # later)
           then [CannotEncode] else []) \<and>
      executed (db (snd (app_return_book py_int a))) =
        executed (db a) @ [SelectBooks, UpdateReturn i] \<and>
      lib (db (snd (app_return_book py_int a))) = lib (snd (return_book i (db a))))"
proof -
  have v: "fst (return_try i a) = Inl (ValueError m) \<longleftrightarrow>
      m = CannotEncode \<and> log_openable a \<and> \<not> log_encodable a (BookReturned i) \<and>
      (\<exists>later. observers a = Logger # later)" for a m
  proof -
    have "fst (return_try i a) = Inl (ValueError m) \<longleftrightarrow>
        first_raise (logger_ok a (BookReturned i)) (logger_exn a) (observers a) =
          Some (ValueError m)"
      by (simp add: return_try_fst split: option.split)
    then show ?thesis
      by (simp add: first_raise_value_error)
  qed
  have 1: "fst (return_book i d) = Inr ()"
    by (rule fst_return_book)
  have 2: "(\<exists>m. fst (return_try i a) = Inl (ValueError m)) \<longleftrightarrow>
      log_openable a \<and> \<not> log_encodable a (BookReturned i) \<and>
      (\<exists>later. observers a = Logger # later)"
    by (simp add: v)
  have 3: "\<forall>m. fst (return_try i a) = Inl (ValueError m) \<longrightarrow> m = CannotEncode"
    by (simp add: v)
  have 4: "role a = Some ''librarian'' \<and> stdin a = s # rest \<and> py_int s = Some i \<longrightarrow>
      console (snd (app_return_book py_int a)) =
        console a @ BookListHeader # map book_line (lib (db a)) @ [EnterReturnId, ReturnedOk]
        @ (if log_openable a \<and> \<not> log_encodable a (BookReturned i) \<and>
              (\<exists>later. observers a = Logger # later)
           then [CannotEncode] else []) \<and>
      executed (db (snd (app_return_book py_int a))) =
        executed (db a) @ [SelectBooks, UpdateReturn i] \<and>
      lib (db (snd (app_return_book py_int a))) = lib (snd (return_book i (db a)))"
  proof (rule impI)
    assume h: "role a = Some ''librarian'' \<and> stdin a = s # rest \<and> py_int s = Some i"
    let ?a1 = "a\<lparr>db := (db a)\<lparr>executed := executed (db a) @ [SelectBooks]\<rparr>,
                 console := console a @ BookListHeader # map book_line (lib (db a))
                            @ [EnterReturnId],
                 stdin := rest\<rparr>"
    let ?t = "return_try i ?a1"
    let ?c = "log_openable a \<and> \<not> log_encodable a (BookReturned i) \<and>
              (\<exists>later. observers a = Logger # later)"
    from h have eq: "app_return_book py_int a =
        (case ?t of (Inl (ValueError m), a2) \<Rightarrow> (Inr (), print m a2) | r \<Rightarrow> r)"
      using app_return_book_eq [of a s rest py_int i] by blast
    have t: "(case fst ?t of Inl (ValueError m) \<Rightarrow> [m] | _ \<Rightarrow> []) =
        (if ?c then [CannotEncode] else [])"
    proof (cases ?c)
      case True
      with v [of ?a1 CannotEncode] have "fst ?t = Inl (ValueError CannotEncode)"
        by simp
      with True show ?thesis by simp
    next
      case False
      with v [of ?a1] have "fst ?t \<noteq> Inl (ValueError m)" for m
        by simp
      with False show ?thesis
        by (simp split: sum.split exn.split)
    qed
    note fr = return_try_frame [of i ?a1]
    show "console (snd (app_return_book py_int a)) =
        console a @ BookListHeader # map book_line (lib (db a)) @ [EnterReturnId, ReturnedOk]
        @ (if ?c then [CannotEncode] else []) \<and>
      executed (db (snd (app_return_book py_int a))) =
        executed (db a) @ [SelectBooks, UpdateReturn i] \<and>
      lib (db (snd (app_return_book py_int a))) = lib (snd (return_book i (db a)))"
      unfolding eq
      by (simp add: handler_console handler_frame t fr executed_return_book lib_return_book)
  qed
  show ?thesis
    by (rule conjI [OF 1 conjI [OF 2 conjI [OF 3 4]]])
qed

theorem return_handler_only_for_logger_witness:
  "fst (app_return_book digits (session (Some ''librarian'') (Some ''bob'') [Logger] [''6''])) = Inr () \<and>
   console (snd (app_return_book digits (session (Some ''librarian'') (Some ''bob'') [Logger] [''6'']))) =
     [BookListHeader, BookLine 5 ''Dune'' ''Herbert'' Available,
      BookLine 7 ''Emma'' ''Austen'' (Issued ''bob'' (Some ''2024-12-31'')),
      EnterReturnId, ReturnedOk] \<and>
   console (snd (app_return_book digits
       (ascii_session (Some ''librarian'') (Some ''bob'') [Logger] [''6'']))) =
     [BookListHeader, BookLine 5 ''Dune'' ''Herbert'' Available,
      BookLine 7 ''Emma'' ''Austen'' (Issued ''bob'' (Some ''2024-12-31'')),
      EnterReturnId, ReturnedOk, CannotEncode]"
proof -
  let ?a = "session (Some ''librarian'') (Some ''bob'') [Logger] [''6'']"
  let ?b = "ascii_session (Some ''librarian'') (Some ''bob'') [Logger] [''6'']"
  have h: "role ?a = Some ''librarian'' \<and> stdin ?a = ''6'' # [] \<and> digits ''6'' = Some 6"
    by (simp add: session_def digits_def)
  have k: "role ?b = Some ''librarian'' \<and> stdin ?b = ''6'' # [] \<and> digits ''6'' = Some 6"
    by (simp add: ascii_session_def session_def digits_def)
  have bl: "map book_line (lib store0) =
      [BookLine 5 ''Dune'' ''Herbert'' Available,
       BookLine 7 ''Emma'' ''Austen'' (Issued ''bob'' (Some ''2024-12-31''))]"
    by (simp add: book_line_def status_of_def store0_def book5_def book7_def)
  from return_handler_only_for_logger [of 6 store0 ?a "''6''" "[]" digits] h
  have 1: "console (snd (app_return_book digits ?a)) =
        console ?a @ BookListHeader # map book_line (lib (db ?a)) @ [EnterReturnId, ReturnedOk]
        @ (if log_openable ?a \<and> \<not> log_encodable ?a (BookReturned 6) \<and>
              (\<exists>later. observers ?a = Logger # later)
           then [CannotEncode] else [])"
    by blast
  from return_handler_only_for_logger [of 6 store0 ?b "''6''" "[]" digits] k
  have 2: "console (snd (app_return_book digits ?b)) =
        console ?b @ BookListHeader # map book_line (lib (db ?b)) @ [EnterReturnId, ReturnedOk]
        @ (if log_openable ?b \<and> \<not> log_encodable ?b (BookReturned 6) \<and>
              (\<exists>later. observers ?b = Logger # later)
           then [CannotEncode] else [])"
    by blast
  have 3: "fst (app_return_book digits ?a) = Inr ()"
    by (simp add: app_return_book_def show_books_def fetch_books_def input_def print_def
        return_try_def return_book_def notify_observers_def session_def digits_def
        store0_def book5_def book7_def status_of_def)
  show ?thesis
    unfolding 1 2 using 3
    by (simp add: session_def ascii_session_def bl)
qed

text \<open>
  The claim as written calls the handler dead code. Under a locale whose encoding is
  ASCII, with the one \<open>Logger\<close> the program registers, a librarian's return of book 7
  runs the UPDATE and prints the success message; the logger's write then raises, the
  handler of line 142 is entered and prints the error, and the method returns normally.
\<close>

theorem return_handler_counterexample:
  "fst (return_try 7 (ascii_session (Some ''librarian'') (Some ''bob'') [Logger] [])) =
     Inl (ValueError CannotEncode) \<and>
   fst (app_return_book digits
       (ascii_session (Some ''librarian'') (Some ''bob'') [Logger] [''7''])) = Inr () \<and>
   console (snd (app_return_book digits
       (ascii_session (Some ''librarian'') (Some ''bob'') [Logger] [''7'']))) =
     [BookListHeader, BookLine 5 ''Dune'' ''Herbert'' Available,
      BookLine 7 ''Emma'' ''Austen'' (Issued ''bob'' (Some ''2024-12-31'')),
      EnterReturnId, ReturnedOk, CannotEncode] \<and>
   borrowed_by (lib (db (snd (app_return_book digits
       (ascii_session (Some ''librarian'') (Some ''bob'') [Logger] [''7''])))) ! 1) = None"
  by (simp add: app_return_book_def show_books_def fetch_books_def input_def print_def
      return_try_def return_book_def notify_observers_def ascii_session_def session_def
      store0_def book5_def book7_def digits_def status_of_def)

text \<open>
  C6. In a session whose role is not \<open>librarian\<close>, \<open>LibraryApp.return_book\<close> prints the
  refusal of line 132 and does nothing else: no statement is executed, no line is read,
  the tables and the log file are as before. In the menu, choice 3 prints the message
  of line 166 and the loop goes on from the same store; the menu does not list the
  return action. Over the whole loop the role stays what it was and no \<open>UPDATE\<close> of
  \<open>return_book\<close> is ever executed.
\<close>

theorem return_needs_librarian:
  assumes "role a \<noteq> Some ''librarian''"
  shows "app_return_book py_int a = (Inr (), a\<lparr>console := console a @ [NoReturnAccess]\<rparr>) \<and>
     (stdin a = ''3'' # rest \<longrightarrow>
        menu_loop py_int a =
          menu_loop py_int
            (a\<lparr>stdin := rest, console := console (show_menu a) @ [Choose, InvalidChoice]\<rparr>)) \<and>
     MenuReturn \<notin> set (drop (length (console a)) (console (show_menu a))) \<and>
     role (snd (menu_loop py_int a)) = role a \<and>
     (\<forall>i. UpdateReturn i \<in> set (executed (db (snd (menu_loop py_int a)))) \<longrightarrow>
          UpdateReturn i \<in> set (executed (db a)))"
proof (intro conjI impI allI)
  show "app_return_book py_int a = (Inr (), a\<lparr>console := console a @ [NoReturnAccess]\<rparr>)"
    using assms by (simp add: app_return_book_def print_def)
  show "MenuReturn \<notin> set (drop (length (console a)) (console (show_menu a)))"
    using assms by (simp add: show_menu_def print_def Let_def)
  show "role (snd (menu_loop py_int a)) = role a"
    using menu_loop_no_return [OF assms] by blast
  show "UpdateReturn i \<in> set (executed (db a))"
    if "UpdateReturn i \<in> set (executed (db (snd (menu_loop py_int a))))" for i
    using menu_loop_no_return [OF assms, of py_int i] that by blast
next
  assume s: "stdin a = ''3'' # rest"
  have m: "show_menu a =
      a\<lparr>console := console (show_menu a)\<rparr>"
    by (simp add: show_menu_def print_def Let_def)
  have "stdin (show_menu a) = ''3'' # rest"
    using s by (simp add: stdin_show_menu)
  then have "input Choose (show_menu a) =
      (Inr ''3'', (show_menu a)\<lparr>console := console (show_menu a) @ [Choose], stdin := rest\<rparr>)"
    by (rule input_Cons)
  also have "(show_menu a)\<lparr>console := console (show_menu a) @ [Choose], stdin := rest\<rparr> =
      a\<lparr>console := console (show_menu a) @ [Choose], stdin := rest\<rparr>"
    by (subst (1) m) simp
  finally show "menu_loop py_int a =
          menu_loop py_int
            (a\<lparr>stdin := rest, console := console (show_menu a) @ [Choose, InvalidChoice]\<rparr>)"
    using assms by (simp add: menu_loop.simps [of py_int a] print_def)
qed


theorem return_needs_librarian_witness:
  "app_return_book digits (session (Some ''student'') (Some ''alice'') [Logger] [''3'', ''0'']) =
     (Inr (), (session (Some ''student'') (Some ''alice'') [Logger] [''3'', ''0''])
                \<lparr>console := [NoReturnAccess]\<rparr>) \<and>
   fst (menu_loop digits (session (Some ''student'') (Some ''alice'') [Logger] [''3'', ''0''])) =
     Inr () \<and>
   console (snd (menu_loop digits
       (session (Some ''student'') (Some ''alice'') [Logger] [''3'', ''0'']))) =
     [MenuShow, MenuBorrow, MenuExit, Choose, InvalidChoice,
      MenuShow, MenuBorrow, MenuExit, Choose] \<and>
   db (snd (menu_loop digits
       (session (Some ''student'') (Some ''alice'') [Logger] [''3'', ''0'']))) = store0"
proof -
  let ?a = "session (Some ''student'') (Some ''alice'') [Logger] [''3'', ''0'']"
  let ?b = "?a\<lparr>stdin := [''0''], console := console (show_menu ?a) @ [Choose, InvalidChoice]\<rparr>"
  have r: "role ?a \<noteq> Some ''librarian''"
    by (simp add: session_def)
  have s: "stdin ?a = ''3'' # [''0'']"
    by (simp add: session_def)
  from return_needs_librarian [OF r, of digits "[''0'']"] s
  have 1: "app_return_book digits ?a = (Inr (), ?a\<lparr>console := console ?a @ [NoReturnAccess]\<rparr>)"
    and 2: "menu_loop digits ?a = menu_loop digits ?b"
    by blast+
  have 3: "menu_loop digits ?b = (Inr (), ?b\<lparr>stdin := [], console := console ?b @ [MenuShow, MenuBorrow, MenuExit, Choose]\<rparr>)"
    by (subst menu_loop.simps)
      (simp add: session_def show_menu_def print_def input_def Let_def)
  show ?thesis
    unfolding 2 3 1
    by (simp add: session_def show_menu_def print_def Let_def)
qed

text \<open>
  C7, as the code has it. After the gateway call of a borrow or a return has succeeded,
  \<open>notify_observers\<close> calls \<open>update\<close> on the observers in the order of registration, once
  each with the one formatted message, until one raises: every observer whose \<open>update\<close>
  returned has the message, one line of the log for each logger, and the observers after
  the one that raised get nothing. When no \<open>update\<close> raises (every observer is a
  \<open>Logger\<close>, the log file can be opened and its encoding takes the line), every observer
  gets the message. An \<open>update\<close> that raises ends the delivery: the \<open>ValueError\<close> of a
  logger whose line cannot be encoded is caught by the handler of the action, which
  prints it and returns normally; the \<open>OSError\<close> of a log file that cannot be opened and
  the \<open>NotImplementedError\<close> of the base class leave the action uncaught. When the
  gateway call of the borrow raised, no observer is called.
\<close>

theorem observers_notified_until_raise:
  "(role a = Some ''librarian'' \<and> stdin a = s # rest \<and> py_int s = Some i \<longrightarrow>
      log_file (snd (app_return_book py_int a)) =
        log_file a @
        log_lines (clock a) (ticks a) (BookReturned i)
          (notified (logger_ok a (BookReturned i)) (observers a)) \<and>
      fst (app_return_book py_int a) =
        after_handler
          (first_raise (logger_ok a (BookReturned i)) (logger_exn a) (observers a))) \<and>
   ((role a = Some ''student'' \<or> role a = Some ''librarian'') \<and>
    stdin a = s # rd # rest \<and> py_int s = Some i \<longrightarrow>
      log_file (snd (app_borrow_book py_int a)) =
        log_file a @
        (if \<not> opt_has_nul (username a) \<and> \<not> has_nul rd \<and>
            (\<exists>b\<in>set (lib (db a)). borrowable i b)
         then log_lines (clock a) (Suc (ticks a)) (BookIssued i (username a))
                (notified (logger_ok a (BookIssued i (username a))) (observers a))
         else []) \<and>
      fst (app_borrow_book py_int a) =
        (if \<not> opt_has_nul (username a) \<and> \<not> has_nul rd \<and>
            (\<exists>b\<in>set (lib (db a)). borrowable i b)
         then after_handler
                (first_raise (logger_ok a (BookIssued i (username a))) (logger_exn a)
                   (observers a))
         else Inr ())) \<and>
   (list_all (\<lambda>ob. ob = Logger) obs \<longrightarrow>
      notified True obs = length obs \<and> first_raise True e obs = None \<and>
      notified True (obs @ Observer # later) = length obs \<and>
      first_raise True e (obs @ Observer # later) = Some NotImplementedError) \<and>
   notified False obs = 0 \<and>
   first_raise False e (Logger # later) = Some e \<and>
   first_raise False e (Observer # later) = Some NotImplementedError \<and>
   first_raise False e [] = None \<and>
   length (log_lines c t m n) = n \<and>
   (\<forall>k < n. log_lines c t m n ! k = (c (t + k), m))"
proof -
  have ah: "(case r of Inl (ValueError m) \<Rightarrow> Inr () | r \<Rightarrow> r) =
      after_handler (case r of Inl x \<Rightarrow> Some x | Inr _ \<Rightarrow> None)" for r :: "exn + unit"
    by (simp add: after_handler_def split: sum.split exn.split)
  have ah': "(case (case v of None \<Rightarrow> Inr () | Some x \<Rightarrow> Inl x) of
                Inl (ValueError m) \<Rightarrow> Inr () | r \<Rightarrow> r) = after_handler v"
    for v :: "exn option"
    by (simp add: after_handler_def split: option.split exn.split)
  have 1: "role a = Some ''librarian'' \<and> stdin a = s # rest \<and> py_int s = Some i \<longrightarrow>
      log_file (snd (app_return_book py_int a)) =
        log_file a @
        log_lines (clock a) (ticks a) (BookReturned i)
          (notified (logger_ok a (BookReturned i)) (observers a)) \<and>
      fst (app_return_book py_int a) =
        after_handler
          (first_raise (logger_ok a (BookReturned i)) (logger_exn a) (observers a))"
  proof (rule impI)
    assume h: "role a = Some ''librarian'' \<and> stdin a = s # rest \<and> py_int s = Some i"
    let ?a1 = "a\<lparr>db := (db a)\<lparr>executed := executed (db a) @ [SelectBooks]\<rparr>,
                 console := console a @ BookListHeader # map book_line (lib (db a))
                            @ [EnterReturnId],
                 stdin := rest\<rparr>"
    from h have eq: "app_return_book py_int a =
        (case return_try i ?a1 of (Inl (ValueError m), a2) \<Rightarrow> (Inr (), print m a2) | r \<Rightarrow> r)"
      using app_return_book_eq [of a s rest py_int i] by blast
    have k: "logger_ok ?a1 m = logger_ok a m" "logger_exn ?a1 = logger_exn a" for m
      by (simp_all add: logger_ok_def logger_exn_def)
    show "log_file (snd (app_return_book py_int a)) =
        log_file a @
        log_lines (clock a) (ticks a) (BookReturned i)
          (notified (logger_ok a (BookReturned i)) (observers a)) \<and>
      fst (app_return_book py_int a) =
        after_handler
          (first_raise (logger_ok a (BookReturned i)) (logger_exn a) (observers a))"
      unfolding eq
      by (simp add: handler_fst handler_frame return_try_fst return_try_log k ah')
  qed
  have 2: "(role a = Some ''student'' \<or> role a = Some ''librarian'') \<and>
    stdin a = s # rd # rest \<and> py_int s = Some i \<longrightarrow>
      log_file (snd (app_borrow_book py_int a)) =
        log_file a @
        (if \<not> opt_has_nul (username a) \<and> \<not> has_nul rd \<and>
            (\<exists>b\<in>set (lib (db a)). borrowable i b)
         then log_lines (clock a) (Suc (ticks a)) (BookIssued i (username a))
                (notified (logger_ok a (BookIssued i (username a))) (observers a))
         else []) \<and>
      fst (app_borrow_book py_int a) =
        (if \<not> opt_has_nul (username a) \<and> \<not> has_nul rd \<and>
            (\<exists>b\<in>set (lib (db a)). borrowable i b)
         then after_handler
                (first_raise (logger_ok a (BookIssued i (username a))) (logger_exn a)
                   (observers a))
         else Inr ())"
  proof (rule impI)
    assume h: "(role a = Some ''student'' \<or> role a = Some ''librarian'') \<and>
      stdin a = s # rd # rest \<and> py_int s = Some i"
    let ?a2 = "a\<lparr>db := (db a)\<lparr>executed := executed (db a) @ [SelectBooks]\<rparr>,
                  console := console a @ BookListHeader # map book_line (lib (db a))
                             @ [EnterBorrowId, EnterReturnDate],
                  stdin := rest\<rparr>"
    from h have eq: "app_borrow_book py_int a =
       (case borrow_try i rd ?a2 of
          (Inl (ValueError m), a3) \<Rightarrow> (Inr (), print m a3) | r \<Rightarrow> r)"
      using app_borrow_book_eq [of a s rd rest py_int i] by blast
    have k: "logger_ok ?a2 m = logger_ok a m" "logger_exn ?a2 = logger_exn a" for m
      by (simp_all add: logger_ok_def logger_exn_def)
    show "log_file (snd (app_borrow_book py_int a)) =
        log_file a @
        (if \<not> opt_has_nul (username a) \<and> \<not> has_nul rd \<and>
            (\<exists>b\<in>set (lib (db a)). borrowable i b)
         then log_lines (clock a) (Suc (ticks a)) (BookIssued i (username a))
                (notified (logger_ok a (BookIssued i (username a))) (observers a))
         else []) \<and>
      fst (app_borrow_book py_int a) =
        (if \<not> opt_has_nul (username a) \<and> \<not> has_nul rd \<and>
            (\<exists>b\<in>set (lib (db a)). borrowable i b)
         then after_handler
                (first_raise (logger_ok a (BookIssued i (username a))) (logger_exn a)
                   (observers a))
         else Inr ())"
      unfolding eq
      by (simp add: handler_fst handler_frame borrow_try_fst borrow_try_log k ah')
  qed
  have 3: "list_all (\<lambda>ob. ob = Logger) obs \<longrightarrow>
      notified True obs = length obs \<and> first_raise True e obs = None \<and>
      notified True (obs @ Observer # later) = length obs \<and>
      first_raise True e (obs @ Observer # later) = Some NotImplementedError"
    using notified_all [of obs e later] by blast
  have "takeWhile (\<lambda>ob. False) obs = []"
    by (cases obs) simp_all
  then have 40: "notified False obs = 0"
    by (simp add: notified_def)
  have 4: "first_raise False e (Logger # later) = Some e"
    "first_raise False e (Observer # later) = Some NotImplementedError"
    "first_raise False e [] = None"
    by (simp_all add: first_raise_def)
  have 5: "length (log_lines c t m n) = n"
    by (simp add: log_lines_def)
  have 6: "\<forall>k < n. log_lines c t m n ! k = (c (t + k), m)"
    by (simp add: log_lines_def)
  show ?thesis
    by (rule conjI [OF 1 conjI [OF 2 conjI [OF 3 conjI [OF 40 conjI [OF 4(1)
          conjI [OF 4(2) conjI [OF 4(3) conjI [OF 5 6]]]]]]]])
qed

theorem observers_notified_until_raise_witness:
  "log_file (snd (app_borrow_book digits
      (session (Some ''student'') (Some ''alice'') [Logger, Logger] [''5'', ''2025-01-01'']))) =
     [(noon, BookIssued 5 (Some ''alice'')), (noon, BookIssued 5 (Some ''alice''))] \<and>
   fst (app_borrow_book digits
      (session (Some ''student'') (Some ''alice'') [Logger, Logger] [''5'', ''2025-01-01''])) =
     Inr () \<and>
   log_file (snd (app_borrow_book digits
      (session (Some ''student'') (Some ''alice'') [Logger, Logger] [''7'', ''2025-01-01'']))) =
     [] \<and>
   log_file (snd (app_return_book digits
      (session (Some ''librarian'') (Some ''bob'') [Logger, Observer, Logger] [''7'']))) =
     [(noon, BookReturned 7)] \<and>
   fst (app_return_book digits
      (session (Some ''librarian'') (Some ''bob'') [Logger, Observer, Logger] [''7''])) =
     Inl NotImplementedError \<and>
   log_file (snd (app_return_book digits
      (ascii_session (Some ''librarian'') (Some ''bob'') [Logger, Logger] [''7'']))) = [] \<and>
   fst (app_return_book digits
      (ascii_session (Some ''librarian'') (Some ''bob'') [Logger, Logger] [''7''])) = Inr ()"
proof -
  let ?a = "session (Some ''student'') (Some ''alice'') [Logger, Logger] [''5'', ''2025-01-01'']"
  let ?b = "session (Some ''student'') (Some ''alice'') [Logger, Logger] [''7'', ''2025-01-01'']"
  let ?c = "session (Some ''librarian'') (Some ''bob'') [Logger, Observer, Logger] [''7'']"
  let ?d = "ascii_session (Some ''librarian'') (Some ''bob'') [Logger, Logger] [''7'']"
  have a: "(role ?a = Some ''student'' \<or> role ?a = Some ''librarian'') \<and>
      stdin ?a = ''5'' # ''2025-01-01'' # [] \<and> digits ''5'' = Some 5"
    by (simp add: session_def digits_def)
  have b: "(role ?b = Some ''student'' \<or> role ?b = Some ''librarian'') \<and>
      stdin ?b = ''7'' # ''2025-01-01'' # [] \<and> digits ''7'' = Some 7"
    by (simp add: session_def digits_def)
  have c: "role ?c = Some ''librarian'' \<and> stdin ?c = ''7'' # [] \<and> digits ''7'' = Some 7"
    by (simp add: session_def digits_def)
  have d: "role ?d = Some ''librarian'' \<and> stdin ?d = ''7'' # [] \<and> digits ''7'' = Some 7"
    by (simp add: ascii_session_def session_def digits_def)
  have n: "notified True [Logger, Logger] = Suc (Suc 0)"
    "notified True [Logger, Observer, Logger] = Suc 0"
    "notified False [Logger, Logger] = 0"
    "first_raise True e [Logger, Logger] = None"
    "first_raise True e [Logger, Observer, Logger] = Some NotImplementedError"
    "first_raise False e [Logger, Logger] = Some e" for e
    by (simp_all add: notified_def first_raise_def)
  have l: "log_lines (\<lambda>_. noon) t m (Suc (Suc 0)) = [(noon, m), (noon, m)]"
    "log_lines (\<lambda>_. noon) t m (Suc 0) = [(noon, m)]"
    "log_lines (\<lambda>_. noon) t m 0 = []" for t m
    by (simp_all add: log_lines_def)
  from observers_notified_until_raise [of ?a "''5''" "[]" digits 5 "''2025-01-01''"] a
  have 1: "log_file (snd (app_borrow_book digits ?a)) =
        log_file ?a @
        (if \<not> opt_has_nul (username ?a) \<and> \<not> has_nul ''2025-01-01'' \<and>
            (\<exists>b\<in>set (lib (db ?a)). borrowable 5 b)
         then log_lines (clock ?a) (Suc (ticks ?a)) (BookIssued 5 (username ?a))
                (notified (logger_ok ?a (BookIssued 5 (username ?a))) (observers ?a))
         else [])"
    and 2: "fst (app_borrow_book digits ?a) =
        (if \<not> opt_has_nul (username ?a) \<and> \<not> has_nul ''2025-01-01'' \<and>
            (\<exists>b\<in>set (lib (db ?a)). borrowable 5 b)
         then after_handler
                (first_raise (logger_ok ?a (BookIssued 5 (username ?a))) (logger_exn ?a)
                   (observers ?a))
         else Inr ())"
    by blast+
  from observers_notified_until_raise [of ?b "''7''" "[]" digits 7 "''2025-01-01''"] b
  have 3: "log_file (snd (app_borrow_book digits ?b)) =
        log_file ?b @
        (if \<not> opt_has_nul (username ?b) \<and> \<not> has_nul ''2025-01-01'' \<and>
            (\<exists>b\<in>set (lib (db ?b)). borrowable 7 b)
         then log_lines (clock ?b) (Suc (ticks ?b)) (BookIssued 7 (username ?b))
                (notified (logger_ok ?b (BookIssued 7 (username ?b))) (observers ?b))
         else [])"
    by blast
  from observers_notified_until_raise [of ?c "''7''" "[]" digits 7] c
  have 4: "log_file (snd (app_return_book digits ?c)) =
        log_file ?c @
        log_lines (clock ?c) (ticks ?c) (BookReturned 7)
          (notified (logger_ok ?c (BookReturned 7)) (observers ?c))"
    and 5: "fst (app_return_book digits ?c) =
        after_handler
          (first_raise (logger_ok ?c (BookReturned 7)) (logger_exn ?c) (observers ?c))"
    by blast+
  from observers_notified_until_raise [of ?d "''7''" "[]" digits 7] d
  have 6: "log_file (snd (app_return_book digits ?d)) =
        log_file ?d @
        log_lines (clock ?d) (ticks ?d) (BookReturned 7)
          (notified (logger_ok ?d (BookReturned 7)) (observers ?d))"
    and 7: "fst (app_return_book digits ?d) =
        after_handler
          (first_raise (logger_ok ?d (BookReturned 7)) (logger_exn ?d) (observers ?d))"
    by blast+
  show ?thesis
    unfolding 1 2 3 4 5 6 7
    by (simp add: session_def ascii_session_def store0_def book5_def book7_def borrowable_def
        logger_ok_def logger_exn_def after_handler_def has_nul_def opt_has_nul_def n l)
qed

text \<open>
  The claim as written speaks of every subscriber after every successful action. Under
  a locale whose encoding is ASCII, with two loggers registered, the borrow of the free
  book 5 succeeds in the store and line 125 is printed; the first logger's write raises,
  the handler of line 127 prints the error and the method returns normally: the log has
  no new line and the second logger is never called.
\<close>

theorem every_subscriber_notified_counterexample:
  "observers (ascii_session (Some ''student'') (Some ''alice'') [Logger, Logger]
       [''5'', ''2025-01-01'']) = [Logger, Logger] \<and>
   fst (borrow_book 5 (Some ''alice'') ''2025-01-01'' noon store0) = Inr () \<and>
   borrowed_by (lib (db (snd (app_borrow_book digits
       (ascii_session (Some ''student'') (Some ''alice'') [Logger, Logger]
          [''5'', ''2025-01-01''])))) ! 0) = Some ''alice'' \<and>
   console (snd (app_borrow_book digits
       (ascii_session (Some ''student'') (Some ''alice'') [Logger, Logger]
          [''5'', ''2025-01-01'']))) =
     [BookListHeader, BookLine 5 ''Dune'' ''Herbert'' Available,
      BookLine 7 ''Emma'' ''Austen'' (Issued ''bob'' (Some ''2024-12-31'')),
      EnterBorrowId, EnterReturnDate, BorrowedOk, CannotEncode] \<and>
   fst (app_borrow_book digits
       (ascii_session (Some ''student'') (Some ''alice'') [Logger, Logger]
          [''5'', ''2025-01-01''])) = Inr () \<and>
   log_file (snd (app_borrow_book digits
       (ascii_session (Some ''student'') (Some ''alice'') [Logger, Logger]
          [''5'', ''2025-01-01'']))) = [] \<and>
   ticks (snd (app_borrow_book digits
       (ascii_session (Some ''student'') (Some ''alice'') [Logger, Logger]
          [''5'', ''2025-01-01'']))) = Suc (Suc 0)"
  by (simp add: app_borrow_book_def show_books_def fetch_books_def input_def print_def
      borrow_try_def borrow_book_def borrowable_def notify_observers_def Let_def
      ascii_session_def session_def store0_def book5_def book7_def digits_def status_of_def
      has_nul_def opt_has_nul_def)

end
